theory Spec2Isabelle
  imports Main "HOL-Library.Word" "HOL-Library.Log_Nat"
begin

unbundle bit_operations_syntax

section \<open>Mip-level count (vkimage.cpp)\<close>

type_synonym uint32_t = "32 word"

text \<open>
  One line of the binary search in \<^verbatim>\<open>countl_zero_\<close>,
  \<^verbatim>\<open>if( !(aX & m) ) (res += k), (aX <<= k);\<close>
  acting on the pair of locals \<open>(res, aX)\<close>.
\<close>

definition clz_step :: "uint32_t \<Rightarrow> nat \<Rightarrow> uint32_t \<times> uint32_t \<Rightarrow> uint32_t \<times> uint32_t" where
  "clz_step m k s =
     (case s of (res, aX) \<Rightarrow>
        if aX AND m = 0 then (res + of_nat k, push_bit k aX) else (res, aX))"

text \<open>
  \<^verbatim>\<open>countl_zero_\<close> of the source (written here without the trailing
  underscore): the C++17 fallback for \<open>std::countl_zero\<close> on a 32-bit
  unsigned value. The last line only increments \<open>res\<close>.
\<close>

definition countl_zero :: "uint32_t \<Rightarrow> uint32_t" where
  "countl_zero aX =
     (if aX = 0 then 32
      else
        let s1 = clz_step 0xffff0000 16 (0, aX);
            s2 = clz_step 0xff000000 8 s1;
            s3 = clz_step 0xf0000000 4 s2;
            s4 = clz_step 0xc0000000 2 s3
        in if snd s4 AND 0x80000000 = 0 then fst s4 + 1 else fst s4)"

definition compute_mip_level_count :: "uint32_t \<Rightarrow> uint32_t \<Rightarrow> uint32_t" where
  "compute_mip_level_count aWidth aHeight =
     (let bits = aWidth OR aHeight;
          leadingZeros = countl_zero bits
      in 32 - leadingZeros)"


section \<open>Driver values shared by the models\<close>

text \<open>
  \<open>VkResult\<close>: the three codes the source compares against by name; every
  other code of the enumeration is \<open>VK_RESULT_OTHER\<close> with its number.
\<close>

datatype VkResult =
    VK_SUCCESS
  | VK_SUBOPTIMAL_KHR
  | VK_ERROR_OUT_OF_DATE_KHR
  | VK_RESULT_OTHER int

text \<open>
  How a call of the source can end without returning: a thrown \<open>lut::Error\<close>
  (with the head of its message), or a failed \<open>assert\<close>, which aborts the
  process and is not an exception.
\<close>

datatype failure = Thrown string | AssertFailed

text \<open>Vulkan handles are opaque; \<open>VK_NULL_HANDLE\<close> is the zero handle.\<close>

type_synonym handle = nat

definition VK_NULL_HANDLE :: handle where
  "VK_NULL_HANDLE = 0"

section \<open>Texture upload and mip chain (vkimage.cpp)\<close>

datatype VkImageLayout =
    VK_IMAGE_LAYOUT_UNDEFINED
  | VK_IMAGE_LAYOUT_TRANSFER_DST_OPTIMAL
  | VK_IMAGE_LAYOUT_TRANSFER_SRC_OPTIMAL
  | VK_IMAGE_LAYOUT_SHADER_READ_ONLY_OPTIMAL

text \<open>
  The commands \<open>load_image_texture2d\<close> records, with the arguments that
  decide layouts and extents: a barrier carries old layout, new layout,
  \<open>baseMipLevel\<close> and \<open>levelCount\<close>; the buffer copy its mip level and
  extent; a blit the source level and extent, then the destination level
  and extent. Access masks, pipeline stages, the aspect and the single
  array layer are constant in the source and left out.
\<close>

datatype command =
    ImageBarrier VkImageLayout VkImageLayout uint32_t uint32_t
  | CopyBufferToImage uint32_t uint32_t uint32_t
  | BlitImage uint32_t uint32_t uint32_t uint32_t uint32_t uint32_t

text \<open>\<^verbatim>\<open>x >>= 1; if (x == 0) x = 1;\<close>\<close>

definition next_mip_size :: "uint32_t \<Rightarrow> uint32_t" where
  "next_mip_size x = (let y = drop_bit 1 x in if y = 0 then 1 else y)"

text \<open>
  The loop \<^verbatim>\<open>for (uint32_t level = 1; level < mipLevels; ++level)\<close>, started
  at any \<open>level\<close> with the current \<open>wd\<close> and \<open>ht\<close>: each round records the
  blit from \<open>level - 1\<close> and the barrier that turns \<open>level\<close> into a transfer
  source.
\<close>

function blit_loop :: "uint32_t \<Rightarrow> uint32_t \<Rightarrow> uint32_t \<Rightarrow> uint32_t \<Rightarrow> command list" where
  "blit_loop mipLevels level wd ht =
     (if level < mipLevels then
        let wd' = next_mip_size wd;
            ht' = next_mip_size ht
        in [BlitImage (level - 1) wd ht level wd' ht',
            ImageBarrier VK_IMAGE_LAYOUT_TRANSFER_DST_OPTIMAL
              VK_IMAGE_LAYOUT_TRANSFER_SRC_OPTIMAL level 1]
           @ blit_loop mipLevels (level + 1) wd' ht'
      else [])"
  by pat_completeness auto
termination
proof (relation "measure (\<lambda>(mipLevels, level, wd, ht). unat mipLevels - unat level)")
  show "wf (measure (\<lambda>(mipLevels, level, wd, ht). unat mipLevels - unat level))"
    by simp
next
  fix mipLevels level wd ht :: uint32_t and wd' ht' :: uint32_t
  assume lt: "level < mipLevels"
  then have "unat level < unat mipLevels"
    by (simp add: word_less_nat_alt)
  moreover have "unat mipLevels < 2 ^ 32"
    using unsigned_less [of mipLevels] by simp
  ultimately have "unat level + 1 < 2 ^ 32"
    by simp
  then have "unat (level + 1) = Suc (unat level)"
    by (simp add: unat_word_ariths)
  then show "((mipLevels, level + 1, wd', ht'), (mipLevels, level, wd, ht))
      \<in> measure (\<lambda>(mipLevels, level, wd, ht). unat mipLevels - unat level)"
    using lt by (simp add: word_less_nat_alt)
qed

text \<open>The command sequence between \<open>vkBeginCommandBuffer\<close> and \<open>vkEndCommandBuffer\<close>.\<close>

definition upload_commands :: "uint32_t \<Rightarrow> uint32_t \<Rightarrow> command list" where
  "upload_commands baseWidth baseHeight =
     (let mipLevels = compute_mip_level_count baseWidth baseHeight
      in [ImageBarrier VK_IMAGE_LAYOUT_UNDEFINED VK_IMAGE_LAYOUT_TRANSFER_DST_OPTIMAL 0 mipLevels,
          CopyBufferToImage 0 baseWidth baseHeight,
          ImageBarrier VK_IMAGE_LAYOUT_TRANSFER_DST_OPTIMAL
            VK_IMAGE_LAYOUT_TRANSFER_SRC_OPTIMAL 0 1]
         @ blit_loop mipLevels 1 baseWidth baseHeight
         @ [ImageBarrier VK_IMAGE_LAYOUT_TRANSFER_SRC_OPTIMAL
              VK_IMAGE_LAYOUT_SHADER_READ_ONLY_OPTIMAL 0 mipLevels])"

text \<open>
  The image \<open>create_image_texture2d\<close> asks the allocator for: its extent and
  \<open>imageInfo.mipLevels\<close>.
\<close>

record Image =
  imageWidth :: uint32_t
  imageHeight :: uint32_t
  mipLevels :: uint32_t

definition create_image_texture2d :: "VkResult \<Rightarrow> uint32_t \<Rightarrow> uint32_t \<Rightarrow> failure + Image" where
  "create_image_texture2d vmaCreateImageRes aWidth aHeight =
     (let levels = compute_mip_level_count aWidth aHeight
      in if vmaCreateImageRes \<noteq> VK_SUCCESS then Inl (Thrown ''Unable to allocate image.'')
         else Inr \<lparr>imageWidth = aWidth, imageHeight = aHeight, mipLevels = levels\<rparr>)"

text \<open>
  What the libraries and the driver answer during one \<open>load_image_texture2d\<close>:
  \<open>stbi_load\<close> (\<open>None\<close> for a null pointer, else the two \<open>int\<close> sizes), the
  helpers \<open>create_buffer\<close>, \<open>alloc_command_buffer\<close> and \<open>create_fence\<close>
  (defined in files that are not part of the sources: only whether they
  throw is taken), and the result code of each driver call.
\<close>

record upload_env =
  stbi_load :: "(int \<times> int) option"
  create_buffer :: "failure option"
  vmaMapMemory :: VkResult
  vmaCreateImage :: VkResult
  alloc_command_buffer :: "failure option"
  vkBeginCommandBuffer :: VkResult
  vkEndCommandBuffer :: VkResult
  create_fence :: "failure option"
  vkQueueSubmit :: VkResult
  vkWaitForFences :: VkResult

text \<open>
  \<open>load_image_texture2d\<close>: on return, the image together with the commands
  that were submitted and waited for. \<open>std::uint32_t(baseWidthi)\<close> is
  \<open>word_of_int\<close>.
\<close>

definition load_image_texture2d :: "upload_env \<Rightarrow> failure + (Image \<times> command list)" where
  "load_image_texture2d env =
     (case stbi_load env of
        None \<Rightarrow> Inl (Thrown ''unable to load texture base image'')
      | Some (baseWidthi, baseHeighti) \<Rightarrow>
          let baseWidth = (word_of_int baseWidthi :: uint32_t);
              baseHeight = (word_of_int baseHeighti :: uint32_t)
          in (case create_buffer env of
                Some e \<Rightarrow> Inl e
              | None \<Rightarrow>
                  if vmaMapMemory env \<noteq> VK_SUCCESS then Inl (Thrown ''Mapping memory for writing'')
                  else
                    (case create_image_texture2d (vmaCreateImage env) baseWidth baseHeight of
                       Inl e \<Rightarrow> Inl e
                     | Inr ret \<Rightarrow>
                         (case alloc_command_buffer env of
                            Some e \<Rightarrow> Inl e
                          | None \<Rightarrow>
                              if vkBeginCommandBuffer env \<noteq> VK_SUCCESS
                              then Inl (Thrown ''Beginning command buffer recording'')
                              else
                                let cbuff = upload_commands baseWidth baseHeight
                                in if vkEndCommandBuffer env \<noteq> VK_SUCCESS
                                   then Inl (Thrown ''Ending command buffer recording'')
                                   else
                                     (case create_fence env of
                                        Some e \<Rightarrow> Inl e
                                      | None \<Rightarrow>
                                          if vkQueueSubmit env \<noteq> VK_SUCCESS
                                          then Inl (Thrown ''Submitting commands'')
                                          else if vkWaitForFences env \<noteq> VK_SUCCESS
                                          then Inl (Thrown ''Waiting for upload to complete'')
                                          else Inr (ret, cbuff))))))"

text \<open>\<^verbatim>\<open>imageInfo.initialLayout = VK_IMAGE_LAYOUT_UNDEFINED\<close>, for each of the levels.\<close>

definition initial_layouts :: "Image \<Rightarrow> VkImageLayout list" where
  "initial_layouts img = replicate (unat (mipLevels img)) VK_IMAGE_LAYOUT_UNDEFINED"

text \<open>
  What the recorded commands do to the layout of each mip level, by the
  rules the source's comments rely on: a barrier moves the levels
  \<open>baseMipLevel \<dots> baseMipLevel + levelCount - 1\<close> from the old layout
  (any layout when the old one is \<open>UNDEFINED\<close>) to the new one; a copy
  writes a level that is in transfer-destination layout; a blit reads a
  level in transfer-source layout and writes one in transfer-destination
  layout. The state is the list of layouts, indexed by mip level; \<open>None\<close>
  is a command used against these rules.
\<close>

definition levels_in :: "VkImageLayout list \<Rightarrow> nat \<Rightarrow> nat \<Rightarrow> VkImageLayout \<Rightarrow> bool" where
  "levels_in ls base cnt l \<longleftrightarrow>
     base + cnt \<le> length ls \<and> list_all (\<lambda>x. x = l) (take cnt (drop base ls))"

definition set_levels :: "VkImageLayout list \<Rightarrow> nat \<Rightarrow> nat \<Rightarrow> VkImageLayout \<Rightarrow> VkImageLayout list" where
  "set_levels ls base cnt l = take base ls @ replicate cnt l @ drop (base + cnt) ls"

fun exec_command :: "command \<Rightarrow> VkImageLayout list \<Rightarrow> VkImageLayout list option" where
  "exec_command (ImageBarrier old new base cnt) ls =
     (if unat base + unat cnt \<le> length ls \<and>
         (old = VK_IMAGE_LAYOUT_UNDEFINED \<or> levels_in ls (unat base) (unat cnt) old)
      then Some (set_levels ls (unat base) (unat cnt) new) else None)"
| "exec_command (CopyBufferToImage level wd ht) ls =
     (if levels_in ls (unat level) 1 VK_IMAGE_LAYOUT_TRANSFER_DST_OPTIMAL then Some ls else None)"
| "exec_command (BlitImage src sw sh dst dw dh) ls =
     (if levels_in ls (unat src) 1 VK_IMAGE_LAYOUT_TRANSFER_SRC_OPTIMAL \<and>
         levels_in ls (unat dst) 1 VK_IMAGE_LAYOUT_TRANSFER_DST_OPTIMAL
      then Some ls else None)"

fun exec_commands :: "command list \<Rightarrow> VkImageLayout list \<Rightarrow> VkImageLayout list option" where
  "exec_commands [] ls = Some ls"
| "exec_commands (c # cs) ls =
     (case exec_command c ls of None \<Rightarrow> None | Some ls' \<Rightarrow> exec_commands cs ls')"


section \<open>Device selection (vulkan_window.cpp)\<close>

text \<open>
  The two macros of \<open>vulkan_core.h\<close> that unpack \<open>apiVersion\<close>, the graphics
  bit of \<open>VkQueueFlags\<close> and the name of the swapchain extension.
\<close>

definition VK_API_VERSION_MAJOR :: "uint32_t \<Rightarrow> uint32_t" where
  "VK_API_VERSION_MAJOR version = drop_bit 22 version AND 0x7F"

definition VK_API_VERSION_MINOR :: "uint32_t \<Rightarrow> uint32_t" where
  "VK_API_VERSION_MINOR version = drop_bit 12 version AND 0x3FF"

definition VK_QUEUE_GRAPHICS_BIT :: uint32_t where
  "VK_QUEUE_GRAPHICS_BIT = 1"

definition VK_KHR_SWAPCHAIN_EXTENSION_NAME :: string where
  "VK_KHR_SWAPCHAIN_EXTENSION_NAME = ''VK_KHR_swapchain''"

datatype VkPhysicalDeviceType =
    VK_PHYSICAL_DEVICE_TYPE_OTHER
  | VK_PHYSICAL_DEVICE_TYPE_INTEGRATED_GPU
  | VK_PHYSICAL_DEVICE_TYPE_DISCRETE_GPU
  | VK_PHYSICAL_DEVICE_TYPE_VIRTUAL_GPU
  | VK_PHYSICAL_DEVICE_TYPE_CPU

text \<open>
  A queue family as the driver describes it: its \<open>queueFlags\<close>, and what
  \<open>vkGetPhysicalDeviceSurfaceSupportKHR\<close> answers for it and the window's
  surface (the result code and the \<open>VkBool32\<close>).
\<close>

record queue_family =
  queueFlags :: uint32_t
  surfaceSupportRes :: VkResult
  surfaceSupported :: bool

text \<open>
  A physical device, as far as the selection reads it:
  \<open>props.apiVersion\<close>, \<open>props.deviceType\<close>, the names returned by
  \<open>get_device_extensions\<close> and the queue families in driver order.
\<close>

record VkPhysicalDevice =
  apiVersion :: uint32_t
  deviceType :: VkPhysicalDeviceType
  deviceExtensions :: "string list"
  queueFamilies :: "queue_family list"

text \<open>
  The loop of \<open>find_queue_family\<close> from index \<open>i\<close> on. A null \<open>aSurface\<close>
  (the default argument) accepts the first family with the flags; otherwise
  the family must also present to the surface.
\<close>

fun find_queue_family_from :: "nat \<Rightarrow> queue_family list \<Rightarrow> uint32_t \<Rightarrow> handle \<Rightarrow> nat option" where
  "find_queue_family_from i [] aQueueFlags aSurface = None"
| "find_queue_family_from i (family # rest) aQueueFlags aSurface =
     (if aQueueFlags = (aQueueFlags AND queueFlags family) then
        if VK_NULL_HANDLE = aSurface then Some i
        else if surfaceSupportRes family = VK_SUCCESS \<and> surfaceSupported family then Some i
        else find_queue_family_from (i + 1) rest aQueueFlags aSurface
      else find_queue_family_from (i + 1) rest aQueueFlags aSurface)"

definition find_queue_family :: "VkPhysicalDevice \<Rightarrow> uint32_t \<Rightarrow> handle \<Rightarrow> nat option" where
  "find_queue_family aPhysicalDev aQueueFlags aSurface =
     find_queue_family_from 0 (queueFamilies aPhysicalDev) aQueueFlags aSurface"

text \<open>
  \<open>score_device\<close>. The source's scores are the \<open>float\<close> values \<open>-1\<close>, \<open>0\<close>,
  \<open>100\<close> and \<open>500\<close>, each exact in binary32 and only ever compared, so they
  are integers here.
\<close>

definition score_device :: "VkPhysicalDevice \<Rightarrow> handle \<Rightarrow> int" where
  "score_device aPhysicalDev aSurface =
     (let major = VK_API_VERSION_MAJOR (apiVersion aPhysicalDev);
          minor = VK_API_VERSION_MINOR (apiVersion aPhysicalDev)
      in if major < 1 \<or> (major = 1 \<and> minor < 2) then - 1
         else if VK_KHR_SWAPCHAIN_EXTENSION_NAME \<notin> set (deviceExtensions aPhysicalDev) then - 1
         else if find_queue_family aPhysicalDev 0 aSurface = None then - 1
         else if find_queue_family aPhysicalDev VK_QUEUE_GRAPHICS_BIT VK_NULL_HANDLE = None then - 1
         else
           let score = 0
           in if deviceType aPhysicalDev = VK_PHYSICAL_DEVICE_TYPE_DISCRETE_GPU then score + 500
              else if deviceType aPhysicalDev = VK_PHYSICAL_DEVICE_TYPE_INTEGRATED_GPU then score + 100
              else score)"

text \<open>
  The loop of \<open>select_device\<close> over the enumerated devices, on the locals
  \<open>(bestScore, bestDevice)\<close>; \<open>None\<close> is \<open>VK_NULL_HANDLE\<close>.
\<close>

fun select_loop ::
  "VkPhysicalDevice list \<Rightarrow> handle \<Rightarrow> int \<times> VkPhysicalDevice option \<Rightarrow> int \<times> VkPhysicalDevice option" where
  "select_loop [] aSurface best = best"
| "select_loop (device # rest) aSurface best =
     (let score = score_device device aSurface
      in if score > fst best then select_loop rest aSurface (score, Some device)
         else select_loop rest aSurface best)"

text \<open>The two calls of \<open>vkEnumeratePhysicalDevices\<close>: result codes and the list.\<close>

record device_enumeration =
  enumCountRes :: VkResult
  enumListRes :: VkResult
  enumDevices :: "VkPhysicalDevice list"

definition select_device :: "device_enumeration \<Rightarrow> handle \<Rightarrow> failure + VkPhysicalDevice option" where
  "select_device aInstance aSurface =
     (if enumCountRes aInstance \<noteq> VK_SUCCESS then Inl (Thrown ''Unable to get physical device count'')
      else if enumListRes aInstance \<noteq> VK_SUCCESS then Inl (Thrown ''Unable to get physical device list'')
      else Inr (snd (select_loop (enumDevices aInstance) aSurface (- 1, None))))"

text \<open>
  The four reasons for which the selection is to discard a device, as the
  specification lists them.
\<close>

definition api_version_below_minimum :: "VkPhysicalDevice \<Rightarrow> bool" where
  "api_version_below_minimum d \<longleftrightarrow>
     VK_API_VERSION_MAJOR (apiVersion d) < 1 \<or>
     (VK_API_VERSION_MAJOR (apiVersion d) = 1 \<and> VK_API_VERSION_MINOR (apiVersion d) < 2)"

definition lacks_swapchain_extension :: "VkPhysicalDevice \<Rightarrow> bool" where
  "lacks_swapchain_extension d \<longleftrightarrow>
     VK_KHR_SWAPCHAIN_EXTENSION_NAME \<notin> set (deviceExtensions d)"

definition no_present_family :: "VkPhysicalDevice \<Rightarrow> bool" where
  "no_present_family d \<longleftrightarrow>
     list_all (\<lambda>f. \<not> (surfaceSupportRes f = VK_SUCCESS \<and> surfaceSupported f)) (queueFamilies d)"

definition no_graphics_family :: "VkPhysicalDevice \<Rightarrow> bool" where
  "no_graphics_family d \<longleftrightarrow>
     list_all (\<lambda>f. queueFlags f AND VK_QUEUE_GRAPHICS_BIT \<noteq> VK_QUEUE_GRAPHICS_BIT)
       (queueFamilies d)"

definition rejected :: "VkPhysicalDevice \<Rightarrow> bool" where
  "rejected d \<longleftrightarrow>
     api_version_below_minimum d \<or> lacks_swapchain_extension d \<or>
     no_present_family d \<or> no_graphics_family d"


section \<open>Swapchain creation and recreation (vulkan_window.cpp)\<close>

datatype VkFormat =
    VK_FORMAT_R8G8B8A8_SRGB
  | VK_FORMAT_B8G8R8A8_SRGB
  | VK_FORMAT_OTHER nat

datatype VkColorSpaceKHR =
    VK_COLOR_SPACE_SRGB_NONLINEAR_KHR
  | VK_COLOR_SPACE_OTHER nat

datatype VkPresentModeKHR =
    VK_PRESENT_MODE_FIFO_KHR
  | VK_PRESENT_MODE_FIFO_RELAXED_KHR
  | VK_PRESENT_MODE_OTHER nat

datatype VkSharingMode = VK_SHARING_MODE_EXCLUSIVE | VK_SHARING_MODE_CONCURRENT

record VkSurfaceFormatKHR =
  format :: VkFormat
  colorSpace :: VkColorSpaceKHR

record VkExtent2D =
  width :: uint32_t
  height :: uint32_t

record VkSurfaceCapabilitiesKHR =
  minImageCount :: uint32_t
  maxImageCount :: uint32_t
  currentExtent :: VkExtent2D
  minImageExtent :: VkExtent2D
  maxImageExtent :: VkExtent2D

text \<open>
  The fields of \<open>VkSwapchainCreateInfoKHR\<close> that \<open>create_swapchain\<close> computes
  (the others are constants), named with the prefix \<open>chain\<close>.
\<close>

record VkSwapchainCreateInfoKHR =
  chainMinImageCount :: uint32_t
  chainImageFormat :: VkFormat
  chainImageColorSpace :: VkColorSpaceKHR
  chainImageExtent :: VkExtent2D
  chainPresentMode :: VkPresentModeKHR
  chainOldSwapchain :: handle
  chainImageSharingMode :: VkSharingMode
  chainQueueFamilyIndices :: "uint32_t list"

text \<open>
  What the driver and GLFW answer while a swapchain is built: the two-call
  enumerations with their result codes, the surface capabilities, the
  framebuffer size (two \<open>int\<close>s), and the creating calls as functions of
  their arguments, each giving a result code and a handle.
\<close>

record swap_env =
  surfaceFormatsCountRes :: VkResult
  surfaceFormatsRes :: VkResult
  surfaceFormats :: "VkSurfaceFormatKHR list"
  presentModesCountRes :: VkResult
  presentModesRes :: VkResult
  presentModes :: "VkPresentModeKHR list"
  surfaceCapsRes :: VkResult
  surfaceCaps :: VkSurfaceCapabilitiesKHR
  framebufferSize :: "int \<times> int"
  vkCreateSwapchainKHR :: "VkSwapchainCreateInfoKHR \<Rightarrow> VkResult \<times> handle"
  swapchainImagesCountRes :: "handle \<Rightarrow> VkResult"
  swapchainImagesRes :: "handle \<Rightarrow> VkResult"
  swapchainImages :: "handle \<Rightarrow> handle list"
  vkCreateImageView :: "handle \<Rightarrow> VkFormat \<Rightarrow> VkResult \<times> handle"

text \<open>The driver calls that create or destroy an object, in the order made.\<close>

datatype driver_call =
    DestroyImageView handle
  | CreateSwapchainKHR VkSwapchainCreateInfoKHR VkResult handle
  | DestroySwapchainKHR handle
  | CreateImageView handle VkResult handle

text \<open>Both enumeration helpers print and return an empty container on failure.\<close>

definition get_surface_formats :: "swap_env \<Rightarrow> VkSurfaceFormatKHR list" where
  "get_surface_formats env =
     (if surfaceFormatsCountRes env \<noteq> VK_SUCCESS then []
      else if surfaceFormatsRes env \<noteq> VK_SUCCESS then []
      else surfaceFormats env)"

definition get_present_modes :: "swap_env \<Rightarrow> VkPresentModeKHR list" where
  "get_present_modes env =
     (if presentModesCountRes env \<noteq> VK_SUCCESS then []
      else if presentModesRes env \<noteq> VK_SUCCESS then []
      else presentModes env)"

text \<open>The loop over \<open>formats\<close> with its two \<open>break\<close>s; \<open>fmt0\<close> is \<open>formats[0]\<close>.\<close>

fun pick_surface_format :: "VkSurfaceFormatKHR \<Rightarrow> VkSurfaceFormatKHR list \<Rightarrow> VkSurfaceFormatKHR" where
  "pick_surface_format fmt0 [] = fmt0"
| "pick_surface_format fmt0 (fmt # rest) =
     (if VK_FORMAT_R8G8B8A8_SRGB = format fmt \<and> VK_COLOR_SPACE_SRGB_NONLINEAR_KHR = colorSpace fmt
      then fmt
      else if VK_FORMAT_B8G8R8A8_SRGB = format fmt \<and> VK_COLOR_SPACE_SRGB_NONLINEAR_KHR = colorSpace fmt
      then fmt
      else pick_surface_format fmt0 rest)"

text \<open>The block \<^verbatim>\<open>//Pick an image count\<close> of \<open>create_swapchain\<close>; \<open>+\<close> wraps.\<close>

definition swapchain_image_count :: "VkSurfaceCapabilitiesKHR \<Rightarrow> uint32_t" where
  "swapchain_image_count caps =
     (let imageCount = 2;
          imageCount = (if imageCount < minImageCount caps + 1 then minImageCount caps + 1
                        else imageCount);
          imageCount = (if maxImageCount caps > 0 \<and> imageCount > maxImageCount caps
                        then maxImageCount caps else imageCount)
      in imageCount)"

text \<open>
  The value of \<open>imageCount\<close> in that block after its first \<open>if\<close>, before
  the comparison with \<open>maxImageCount\<close>: the count the code asks for.
\<close>

definition requested_image_count :: "VkSurfaceCapabilitiesKHR \<Rightarrow> uint32_t" where
  "requested_image_count caps =
     (let imageCount = 2;
          imageCount = (if imageCount < minImageCount caps + 1 then minImageCount caps + 1
                        else imageCount)
      in imageCount)"

text \<open>
  \<open>std::clamp(v, lo, hi)\<close> of the C++ standard library: \<open>lo\<close> if \<open>v < lo\<close>,
  \<open>hi\<close> if \<open>hi < v\<close>, otherwise \<open>v\<close>. The standard leaves the call undefined
  when \<open>hi < lo\<close>; the value given here for that case is the one of the
  usual implementation.
\<close>

definition std_clamp :: "uint32_t \<Rightarrow> uint32_t \<Rightarrow> uint32_t \<Rightarrow> uint32_t" where
  "std_clamp v lo hi = (if v < lo then lo else if hi < v then hi else v)"

text \<open>
  The block \<^verbatim>\<open>//Figure out the swap extent\<close>; the second argument is what
  \<open>glfwGetFramebufferSize\<close> reports, converted by \<open>std::uint32_t(width)\<close>.
\<close>

definition swapchain_extent :: "VkSurfaceCapabilitiesKHR \<Rightarrow> int \<times> int \<Rightarrow> VkExtent2D" where
  "swapchain_extent caps fb =
     (let extent = currentExtent caps
      in if (0xFFFFFFFF :: uint32_t) = width extent then
           case fb of (fbw, fbh) \<Rightarrow>
             extent\<lparr>width := std_clamp (word_of_int fbw) (width (minImageExtent caps))
                                 (width (maxImageExtent caps)),
                    height := std_clamp (word_of_int fbh) (height (minImageExtent caps))
                                 (height (maxImageExtent caps))\<rparr>
         else extent)"

text \<open>
  The \<open>chainInfo\<close> that \<open>create_swapchain\<close> fills in, once the formats are
  known to be non-empty and the capabilities have been read.
\<close>

definition swapchain_create_info ::
  "swap_env \<Rightarrow> VkSurfaceFormatKHR \<Rightarrow> uint32_t list \<Rightarrow> handle \<Rightarrow> VkSwapchainCreateInfoKHR" where
  "swapchain_create_info env fmt aQueueFamilyIndices aOldSwapchain =
     \<lparr>chainMinImageCount = swapchain_image_count (surfaceCaps env),
      chainImageFormat = format fmt,
      chainImageColorSpace = colorSpace fmt,
      chainImageExtent = swapchain_extent (surfaceCaps env) (framebufferSize env),
      chainPresentMode =
        (if VK_PRESENT_MODE_FIFO_RELAXED_KHR \<in> set (get_present_modes env)
         then VK_PRESENT_MODE_FIFO_RELAXED_KHR else VK_PRESENT_MODE_FIFO_KHR),
      chainOldSwapchain = aOldSwapchain,
      chainImageSharingMode =
        (if length aQueueFamilyIndices \<le> 1 then VK_SHARING_MODE_EXCLUSIVE
         else VK_SHARING_MODE_CONCURRENT),
      chainQueueFamilyIndices = (if length aQueueFamilyIndices \<le> 1 then [] else aQueueFamilyIndices)\<rparr>"

text \<open>
  \<open>create_swapchain\<close>: the result (or how it failed) and the driver calls
  made. \<open>assert(!formats.empty())\<close> guards \<open>formats[0]\<close>.
\<close>

definition create_swapchain ::
  "swap_env \<Rightarrow> uint32_t list \<Rightarrow> handle \<Rightarrow>
     (failure + handle \<times> VkFormat \<times> VkExtent2D) \<times> driver_call list" where
  "create_swapchain env aQueueFamilyIndices aOldSwapchain =
     (case get_surface_formats env of
        [] \<Rightarrow> (Inl AssertFailed, [])
      | fmt0 # rest \<Rightarrow>
          let fmt = pick_surface_format fmt0 (fmt0 # rest)
          in if surfaceCapsRes env \<noteq> VK_SUCCESS
             then (Inl (Thrown ''Unable to get surface capabilities''), [])
             else
               let chainInfo = swapchain_create_info env fmt aQueueFamilyIndices aOldSwapchain
               in (case vkCreateSwapchainKHR env chainInfo of
                     (res, chain) \<Rightarrow>
                       if res \<noteq> VK_SUCCESS
                       then (Inl (Thrown ''Unable to create swap chain''),
                             [CreateSwapchainKHR chainInfo res chain])
                       else (Inr (chain, format fmt, chainImageExtent chainInfo),
                             [CreateSwapchainKHR chainInfo res chain])))"

definition get_swapchain_images :: "swap_env \<Rightarrow> handle \<Rightarrow> handle list" where
  "get_swapchain_images env aSwapchain =
     (if swapchainImagesCountRes env aSwapchain \<noteq> VK_SUCCESS then []
      else if swapchainImagesRes env aSwapchain \<noteq> VK_SUCCESS then []
      else swapchainImages env aSwapchain)"

text \<open>
  \<open>create_swapchain_image_views\<close> on the images still to do, with the views
  already appended to \<open>aViews\<close>: the thrown error if any, the views vector as
  it is left, and the calls made.
\<close>

fun create_swapchain_image_views ::
  "swap_env \<Rightarrow> VkFormat \<Rightarrow> handle list \<Rightarrow> handle list \<Rightarrow>
     failure option \<times> handle list \<times> driver_call list" where
  "create_swapchain_image_views env aSwapchainFormat [] aViews = (None, aViews, [])"
| "create_swapchain_image_views env aSwapchainFormat (img # rest) aViews =
     (case vkCreateImageView env img aSwapchainFormat of
        (res, view) \<Rightarrow>
          if res \<noteq> VK_SUCCESS
          then (Some (Thrown ''Unable to create image view for swap chain image''), aViews,
                [CreateImageView img res view])
          else
            (case create_swapchain_image_views env aSwapchainFormat rest (aViews @ [view]) of
               (r, views, calls) \<Rightarrow> (r, views, CreateImageView img res view # calls)))"

record VulkanWindow =
  graphicsFamilyIndex :: uint32_t
  presentFamilyIndex :: uint32_t
  swapchain :: handle
  swapImages :: "handle list"
  swapViews :: "handle list"
  swapchainFormat :: VkFormat
  swapchainExtent :: VkExtent2D

record SwapChanges =
  changedSize :: bool
  changedFormat :: bool

text \<open>
  The vector \<open>queueFamilyIndices\<close> that \<open>recreate_swapchain\<close> builds: both
  family indices when they differ, else empty.
\<close>

definition recreate_queue_family_indices :: "VulkanWindow \<Rightarrow> uint32_t list" where
  "recreate_queue_family_indices aWindow =
     (if presentFamilyIndex aWindow \<noteq> graphicsFamilyIndex aWindow
      then [graphicsFamilyIndex aWindow, presentFamilyIndex aWindow] else [])"

text \<open>
  \<open>recreate_swapchain\<close>: what the caller gets (the changes, or the failure),
  the window as it is left, and the driver calls in order. A thrown error
  of \<open>create_swapchain\<close> passes through the \<open>catch (...)\<close>, which puts the
  old handle back; a failed assertion is not an exception and ends the
  process where it stands.
\<close>

definition recreate_swapchain ::
  "swap_env \<Rightarrow> VulkanWindow \<Rightarrow> (failure + SwapChanges) \<times> VulkanWindow \<times> driver_call list" where
  "recreate_swapchain env aWindow =
     (let oldFormat = swapchainFormat aWindow;
          oldExtent = swapchainExtent aWindow;
          oldSwapchain = swapchain aWindow;
          calls1 = map DestroyImageView (swapViews aWindow);
          w1 = aWindow\<lparr>swapViews := [], swapImages := []\<rparr>;
          queueFamilyIndices = recreate_queue_family_indices w1
      in case create_swapchain env queueFamilyIndices oldSwapchain of
           (Inl AssertFailed, calls2) \<Rightarrow> (Inl AssertFailed, w1, calls1 @ calls2)
         | (Inl (Thrown msg), calls2) \<Rightarrow>
             (Inl (Thrown msg), w1\<lparr>swapchain := oldSwapchain\<rparr>, calls1 @ calls2)
         | (Inr (chain, fmt, extent), calls2) \<Rightarrow>
             let w2 = w1\<lparr>swapchain := chain, swapchainFormat := fmt, swapchainExtent := extent\<rparr>;
                 calls3 = [DestroySwapchainKHR oldSwapchain];
                 w3 = w2\<lparr>swapImages := get_swapchain_images env (swapchain w2)\<rparr>
             in (case create_swapchain_image_views env (swapchainFormat w3) (swapImages w3) [] of
                   (Some e, views, calls4) \<Rightarrow>
                     (Inl e, w3\<lparr>swapViews := views\<rparr>, calls1 @ calls2 @ calls3 @ calls4)
                 | (None, views, calls4) \<Rightarrow>
                     let w4 = w3\<lparr>swapViews := views\<rparr>;
                         ret = \<lparr>changedSize = False, changedFormat = False\<rparr>;
                         ret = (if width oldExtent \<noteq> width (swapchainExtent w4) \<or>
                                   height oldExtent \<noteq> height (swapchainExtent w4)
                                then ret\<lparr>changedSize := True\<rparr> else ret);
                         ret = (if oldFormat \<noteq> swapchainFormat w4
                                then ret\<lparr>changedFormat := True\<rparr> else ret)
                     in (Inr ret, w4, calls1 @ calls2 @ calls3 @ calls4)))"

section \<open>Acquire and present in the render loop (main.cpp)\<close>

text \<open>
  What the loop body does next after \<open>vkAcquireNextImageKHR\<close>: \<open>continue\<close>
  (nothing is recorded or submitted for this frame) or go on with the frame.
\<close>

datatype loop_action = Continue | Proceed

text \<open>
  The two tests on \<open>acquireRes\<close> in \<open>main\<close>, on the local flag
  \<open>recreateSwapchain\<close>: the new value of the flag and what the loop does.
\<close>

definition acquire_next_image :: "VkResult \<Rightarrow> bool \<Rightarrow> failure + bool \<times> loop_action" where
  "acquire_next_image acquireRes recreateSwapchain =
     (if VK_SUBOPTIMAL_KHR = acquireRes \<or> VK_ERROR_OUT_OF_DATE_KHR = acquireRes
      then Inr (True, Continue)
      else if VK_SUCCESS \<noteq> acquireRes
      then Inl (Thrown ''Unable to acquire next swapchain image'')
      else Inr (recreateSwapchain, Proceed))"

text \<open>
  \<open>present_results\<close>, given the result of \<open>vkQueuePresentKHR\<close>: the new value
  of the reference parameter \<open>aNeedToRecreateSwapchain\<close>.
\<close>

definition present_results :: "VkResult \<Rightarrow> bool \<Rightarrow> failure + bool" where
  "present_results presentRes aNeedToRecreateSwapchain =
     (if VK_SUBOPTIMAL_KHR = presentRes \<or> VK_ERROR_OUT_OF_DATE_KHR = presentRes
      then Inr True
      else if VK_SUCCESS \<noteq> presentRes
      then Inl (Thrown ''Unable to present swapchain image'')
      else Inr aNeedToRecreateSwapchain)"


section \<open>A sample surface and window\<close>

text \<open>
  Concrete driver answers and a window, for evaluating the swapchain
  functions. The capabilities have the given image counts and current
  extent, with extents allowed from 16 x 16 to 4096 x 4096. The surface has
  one B8G8R8A8 sRGB format, FIFO only, a defined current extent of
  1280 x 720, three images per chain and a view for each image; its
  argument is the result code of \<open>vkCreateSwapchainKHR\<close>.
\<close>

definition sample_caps :: "uint32_t \<Rightarrow> uint32_t \<Rightarrow> VkExtent2D \<Rightarrow> VkSurfaceCapabilitiesKHR" where
  "sample_caps lo hi cur =
     \<lparr>minImageCount = lo, maxImageCount = hi, currentExtent = cur,
      minImageExtent = \<lparr>width = 16, height = 16\<rparr>,
      maxImageExtent = \<lparr>width = 4096, height = 4096\<rparr>\<rparr>"

definition sample_env :: "VkResult \<Rightarrow> swap_env" where
  "sample_env createRes =
     \<lparr>surfaceFormatsCountRes = VK_SUCCESS, surfaceFormatsRes = VK_SUCCESS,
      surfaceFormats =
        [\<lparr>format = VK_FORMAT_B8G8R8A8_SRGB, colorSpace = VK_COLOR_SPACE_SRGB_NONLINEAR_KHR\<rparr>],
      presentModesCountRes = VK_SUCCESS, presentModesRes = VK_SUCCESS,
      presentModes = [VK_PRESENT_MODE_FIFO_KHR],
      surfaceCapsRes = VK_SUCCESS,
      surfaceCaps = sample_caps 2 8 \<lparr>width = 1280, height = 720\<rparr>,
      framebufferSize = (1280, 720),
      vkCreateSwapchainKHR = (\<lambda>ci. (createRes, if createRes = VK_SUCCESS then 42 else 0)),
      swapchainImagesCountRes = (\<lambda>chain. VK_SUCCESS),
      swapchainImagesRes = (\<lambda>chain. VK_SUCCESS),
      swapchainImages = (\<lambda>chain. [101, 102, 103]),
      vkCreateImageView = (\<lambda>img fmt. (VK_SUCCESS, img + 100))\<rparr>"


definition sample_window :: VulkanWindow where
  "sample_window =
     \<lparr>graphicsFamilyIndex = 0, presentFamilyIndex = 0, swapchain = 41,
      swapImages = [91, 92], swapViews = [191, 192],
      swapchainFormat = VK_FORMAT_B8G8R8A8_SRGB,
      swapchainExtent = \<lparr>width = 1280, height = 720\<rparr>\<rparr>"

section \<open>Invariant of the leading-zero search\<close>

text \<open>
  After the step that shifts by \<open>j\<close> has run, for an input \<open>n\<close>: the word
  is \<open>n\<close> shifted left by the count so far, the count leaves room for the
  remaining steps, and the top \<open>j\<close> bits of the word are not all zero.
\<close>

definition clz_inv :: "nat \<Rightarrow> nat \<Rightarrow> uint32_t \<times> uint32_t \<Rightarrow> bool" where
  "clz_inv j n s \<longleftrightarrow> unat (snd s) = n * 2 ^ unat (fst s) \<and> unat (fst s) + j \<le> 32 \<and> 2 ^ (32 - j) \<le> unat (snd s)"


section \<open>Properties of the mip-level count\<close>

lemma and_not_mask_zero_iff: "(x::32 word) AND NOT (mask k) = 0 \<longleftrightarrow> take_bit k x = x"
  by (auto simp: bit_eq_iff bit_simps)

lemma and_not_mask_zero_unat: "(x::32 word) AND NOT (mask k) = 0 \<longleftrightarrow> unat x < 2 ^ k"
proof -
  have "take_bit k x = x \<longleftrightarrow> take_bit k (unat x) = unat x"
    by (metis unsigned_take_bit_eq word_unat_eq_iff)
  then show ?thesis
    by (simp add: and_not_mask_zero_iff take_bit_nat_eq_self_iff)
qed

lemma clz_step_inv:
  assumes m: "m = NOT (mask (32 - k))" and k: "0 < k" "k \<le> 16"
    and inv: "clz_inv (2 * k) n s"
  shows "clz_inv k n (clz_step m k s)"
proof -
  obtain r x where s: "s = (r, x)" by (cases s)
  from inv s have x: "unat x = n * 2 ^ unat r" and r: "unat r + 2 * k \<le> 32"
    and lo: "2 ^ (32 - 2 * k) \<le> unat x"
    by (simp_all add: clz_inv_def)
  show ?thesis
  proof (cases "unat x < 2 ^ (32 - k)")
    case False
    then show ?thesis using x r lo k
      by (simp add: clz_step_def s m and_not_mask_zero_unat clz_inv_def)
  next
    case True
    have rk: "unat (r + of_nat k) = unat r + k"
      using r k by (simp add: unat_word_ariths unat_of_nat)
    have "unat x * 2 ^ k < 2 ^ (32 - k) * 2 ^ k" using True by simp
    also have "\<dots> = (2::nat) ^ 32" using k by (simp flip: power_add)
    finally have lt: "unat x * 2 ^ k < 2 ^ 32" .
    have "unat (push_bit k x) = take_bit 32 (push_bit k (unat x))"
      by (simp add: unsigned_push_bit_eq)
    also have "\<dots> = take_bit 32 (unat x * 2 ^ k)"
      by (simp only: push_bit_eq_mult)
    also have "\<dots> = unat x * 2 ^ k"
      using lt by (simp only: take_bit_nat_eq_self)
    finally have px: "unat (push_bit k x) = unat x * 2 ^ k" .
    have "(2::nat) ^ (32 - k) = 2 ^ (32 - 2 * k) * 2 ^ k"
      using k by (simp flip: power_add)
    also have "\<dots> \<le> unat x * 2 ^ k" using lo by simp
    finally have lo': "2 ^ (32 - k) \<le> unat x * 2 ^ k" .
    show ?thesis using True x r lo' k
      by (simp add: clz_step_def s m and_not_mask_zero_unat clz_inv_def rk px power_add)
  qed
qed


lemma clz_masks:
  "(0xffff0000 :: uint32_t) = NOT (mask (32 - 16))"
  "(0xff000000 :: uint32_t) = NOT (mask (32 - 8))"
  "(0xf0000000 :: uint32_t) = NOT (mask (32 - 4))"
  "(0xc0000000 :: uint32_t) = NOT (mask (32 - 2))"
  "(0x80000000 :: uint32_t) = NOT (mask 31)"
  by (simp_all add: mask_eq_exp_minus_1)

lemma countl_zero_bounds:
  assumes "x \<noteq> 0"
  shows "unat (countl_zero x) \<le> 31 \<and> 2 ^ 31 \<le> unat x * 2 ^ unat (countl_zero x)
         \<and> unat x * 2 ^ unat (countl_zero x) < 2 ^ 32"
proof -
  define s1 where "s1 = clz_step 0xffff0000 16 (0, x)"
  define s2 where "s2 = clz_step 0xff000000 8 s1"
  define s3 where "s3 = clz_step 0xf0000000 4 s2"
  define s4 where "s4 = clz_step 0xc0000000 2 s3"
  have "unat x \<noteq> 0" using assms by (simp add: unat_eq_0)
  then have i0: "clz_inv (2 * 16) (unat x) (0, x)"
    by (simp add: clz_inv_def)
  have i1: "clz_inv (2 * 8) (unat x) s1"
    unfolding s1_def using clz_step_inv [OF clz_masks(1) _ _ i0] by simp
  have i2: "clz_inv (2 * 4) (unat x) s2"
    unfolding s2_def using clz_step_inv [OF clz_masks(2) _ _ i1] by simp
  have i3: "clz_inv (2 * 2) (unat x) s3"
    unfolding s3_def using clz_step_inv [OF clz_masks(3) _ _ i2] by simp
  have i4: "clz_inv 2 (unat x) s4"
    unfolding s4_def using clz_step_inv [OF clz_masks(4) _ _ i3] by simp
  obtain r y where s4: "s4 = (r, y)" by (cases s4)
  from i4 s4 have y: "unat y = unat x * 2 ^ unat r" and r: "unat r \<le> 30"
    and lo: "2 ^ 30 \<le> unat y"
    by (simp_all add: clz_inv_def)
  have hi: "unat y < 2 ^ 32" using unsigned_less [of y] by simp
  have cz: "countl_zero x = (if unat y < 2 ^ 31 then r + 1 else r)"
    using assms
    by (simp add: countl_zero_def Let_def clz_masks(5) and_not_mask_zero_unat
        flip: s1_def s2_def s3_def s4_def) (simp add: s4)
  have r1: "unat (r + 1) = unat r + 1"
    using r by (simp add: unat_word_ariths)
  show ?thesis
  proof (cases "unat y < 2 ^ 31")
    case True
    then show ?thesis using cz r1 r lo y by simp
  next
    case False
    then show ?thesis using cz r lo y hi by simp
  qed
qed


lemma or_nat_less_exp_iff: "(a::nat) OR b < 2 ^ k \<longleftrightarrow> a < 2 ^ k \<and> b < 2 ^ k"
proof -
  have "take_bit k (a OR b) = a OR b \<longleftrightarrow> take_bit k a = a \<and> take_bit k b = b"
    by (auto simp: bit_eq_iff bit_simps)
  then show ?thesis by (simp only: take_bit_nat_eq_self_iff)
qed

lemma unat_or_less_exp_iff:
  "unat ((w::uint32_t) OR h) < 2 ^ k \<longleftrightarrow> unat (max w h) < 2 ^ k"
  by (auto simp: unsigned_or_eq or_nat_less_exp_iff max_def word_le_nat_alt)

lemma or_eq_0_iff_max: "(w::uint32_t) OR h = 0 \<longleftrightarrow> max w h = 0"
  by (auto simp: max_def or_eq_0_iff)

lemma mip_level_count_zero: "compute_mip_level_count 0 0 = 0"
  by (simp add: compute_mip_level_count_def countl_zero_def)

lemma mip_level_count_bounds:
  assumes "max w h \<noteq> 0"
  defines "L \<equiv> unat (compute_mip_level_count w h)"
  shows "1 \<le> L" "L \<le> 32" "2 ^ (L - 1) \<le> unat (max w h)" "unat (max w h) < 2 ^ L"
proof -
  define c where "c = countl_zero (w OR h)"
  define n where "n = unat (w OR h)"
  have nz: "w OR h \<noteq> 0" using assms(1) by (simp add: or_eq_0_iff_max)
  from countl_zero_bounds [OF nz]
  have c: "unat c \<le> 31" and lo: "2 ^ 31 \<le> n * 2 ^ unat c" and hi: "n * 2 ^ unat c < 2 ^ 32"
    by (simp_all add: c_def n_def)
  have "c \<le> 32" using c by (simp add: word_le_nat_alt)
  then have "unat (32 - c) = 32 - unat c"
    by (simp add: unat_sub)
  then have L: "L = 32 - unat c"
    by (simp add: L_def compute_mip_level_count_def c_def)
  show "1 \<le> L" "L \<le> 32" using L c by simp_all
  have "(2::nat) ^ 32 = 2 ^ L * 2 ^ unat c"
    using L c by (simp flip: power_add)
  with hi have "n * 2 ^ unat c < 2 ^ L * 2 ^ unat c" by simp
  then have hiL: "n < 2 ^ L" by simp
  have "(2::nat) ^ 31 = 2 ^ (L - 1) * 2 ^ unat c"
    using L c by (simp flip: power_add)
  with lo have "2 ^ (L - 1) * 2 ^ unat c \<le> n * 2 ^ unat c" by simp
  then have loL: "2 ^ (L - 1) \<le> n" by simp
  show "unat (max w h) < 2 ^ L"
    using hiL by (simp add: n_def unat_or_less_exp_iff)
  show "2 ^ (L - 1) \<le> unat (max w h)"
    using loL unat_or_less_exp_iff [of w h "L - 1"] by (simp add: n_def not_less [symmetric])
qed

lemma mip_level_count_log:
  assumes "1 \<le> max w h"
  shows "int (unat (compute_mip_level_count w h)) = 1 + \<lfloor>log 2 (real (unat (max w h)))\<rfloor>"
proof -
  have nz: "max w h \<noteq> 0" using assms by auto
  define L where "L = unat (compute_mip_level_count w h)"
  note b = mip_level_count_bounds [OF nz, folded L_def]
  have "\<lfloor>log (real 2) (real (unat (max w h)))\<rfloor> = int (L - 1)"
    using b by (intro floor_log_nat_eq_if) simp_all
  then show ?thesis using b(1) by (simp add: L_def)
qed

lemma mip_level_count_mono:
  assumes "max w1 h1 \<le> max w2 h2"
  shows "compute_mip_level_count w1 h1 \<le> compute_mip_level_count w2 h2"
proof (cases "max w1 h1 = 0")
  case True
  then have "w1 = 0" "h1 = 0" by (auto simp: max_def split: if_splits)
  then show ?thesis by (simp add: mip_level_count_zero)
next
  case False
  then have nz2: "max w2 h2 \<noteq> 0" using assms by auto
  define L1 where "L1 = unat (compute_mip_level_count w1 h1)"
  define L2 where "L2 = unat (compute_mip_level_count w2 h2)"
  note b1 = mip_level_count_bounds [OF False, folded L1_def]
  note b2 = mip_level_count_bounds [OF nz2, folded L2_def]
  have "(2::nat) ^ (L1 - 1) \<le> unat (max w1 h1)" by (rule b1(3))
  also have "\<dots> \<le> unat (max w2 h2)" using assms by (simp add: word_le_nat_alt)
  also have "\<dots> < 2 ^ L2" by (rule b2(4))
  finally have "L1 - 1 < L2" by simp
  then have "L1 \<le> L2" by simp
  then show ?thesis by (simp add: word_le_nat_alt L1_def L2_def)
qed


lemma mip_level_count_eq_0_iff: "compute_mip_level_count w h = 0 \<longleftrightarrow> w = 0 \<and> h = 0"
proof
  assume z: "compute_mip_level_count w h = 0"
  show "w = 0 \<and> h = 0"
  proof (rule ccontr)
    assume "\<not> (w = 0 \<and> h = 0)"
    then have "max w h \<noteq> 0" by (auto simp: max_def)
    from mip_level_count_bounds(1) [OF this] z show False by simp
  qed
next
  assume "w = 0 \<and> h = 0"
  then show "compute_mip_level_count w h = 0" by (simp add: mip_level_count_zero)
qed

lemma mip_level_count_ge_1:
  assumes "1 \<le> max w h"
  shows "1 \<le> compute_mip_level_count w h"
proof -
  have "max w h \<noteq> 0" using assms by auto
  from mip_level_count_bounds(1) [OF this] show ?thesis
    by (simp add: word_le_nat_alt)
qed

lemma mip_level_count_strict:
  assumes "1 \<le> max w1 h1" and "2 * unat (max w1 h1) \<le> unat (max w2 h2)"
  shows "compute_mip_level_count w1 h1 < compute_mip_level_count w2 h2"
proof -
  have nz1: "max w1 h1 \<noteq> 0" using assms(1) by auto
  then have "unat (max w1 h1) \<noteq> 0" by (simp add: unat_eq_0)
  then have nz2: "max w2 h2 \<noteq> 0" using assms(2) by (auto simp: unat_eq_0)
  define L1 where "L1 = unat (compute_mip_level_count w1 h1)"
  define L2 where "L2 = unat (compute_mip_level_count w2 h2)"
  note b1 = mip_level_count_bounds [OF nz1, folded L1_def]
  note b2 = mip_level_count_bounds [OF nz2, folded L2_def]
  have "(2::nat) ^ L1 = 2 * 2 ^ (L1 - 1)"
    using b1(1) by (cases L1) simp_all
  also have "\<dots> \<le> 2 * unat (max w1 h1)" using b1(3) by simp
  also have "\<dots> \<le> unat (max w2 h2)" by (rule assms(2))
  also have "\<dots> < 2 ^ L2" by (rule b2(4))
  finally have "L1 < L2" by simp
  then show ?thesis by (simp add: word_less_nat_alt L1_def L2_def)
qed

text \<open>
  C1. Whenever \<open>max(width, height) \<ge> 1\<close>, \<open>compute_mip_level_count\<close>, that
  is \<open>32 - countl_zero_(width | height)\<close>, equals
  \<open>1 + floor(log2(max(width, height)))\<close>, for square and non-square,
  power-of-two and other sizes alike; and the count is 1 for 1 x 1, 9 for
  256 x 256 and 9 for 300 x 1.
\<close>

theorem mip_level_count_formula:
  "(\<forall>w h. 1 \<le> max w h \<longrightarrow>
      int (unat (compute_mip_level_count w h)) = 1 + \<lfloor>log 2 (real (unat (max w h)))\<rfloor>) \<and>
   (\<forall>w h. compute_mip_level_count w h = 32 - countl_zero (w OR h)) \<and>
   compute_mip_level_count 1 1 = 1 \<and>
   compute_mip_level_count 256 256 = 9 \<and>
   compute_mip_level_count 300 1 = 9"
proof -
  have "compute_mip_level_count 1 1 = 1 \<and> compute_mip_level_count 256 256 = 9 \<and>
      compute_mip_level_count 300 1 = 9"
    by (simp add: compute_mip_level_count_def countl_zero_def clz_step_def)
  moreover have "\<forall>w h. compute_mip_level_count w h = 32 - countl_zero (w OR h)"
    by (simp add: compute_mip_level_count_def)
  ultimately show ?thesis
    using mip_level_count_log by blast
qed

theorem mip_level_count_formula_witness:
  "1 \<le> max (300 :: uint32_t) 1 \<and>
   int (unat (compute_mip_level_count 300 1)) = 1 + \<lfloor>log 2 (real (unat (max (300 :: uint32_t) 1)))\<rfloor>"
  using mip_level_count_formula [THEN conjunct1, rule_format, of 300 1] by simp

text \<open>
  C2, as stated, fails twice: the count of a 0 x 0 image is 0, not at least
  1; and 2 x 2 and 3 x 3 have the same count although \<open>2 < 3\<close>.
\<close>

theorem mip_levels_strict_counterexample:
  "\<not> 1 \<le> compute_mip_level_count 0 0 \<and>
   max (2 :: uint32_t) 2 < max 3 3 \<and>
   \<not> compute_mip_level_count 2 2 < compute_mip_level_count 3 3"
  by (simp add: compute_mip_level_count_def countl_zero_def clz_step_def)

text \<open>
  C2, amended. For every pair with \<open>max(w, h) \<ge> 1\<close> the count is at least
  1, and the count is non-decreasing in \<open>max(w, h)\<close>: if
  \<open>max(w1, h1) \<le> max(w2, h2)\<close> then
  \<open>mip_levels(w1, h1) \<le> mip_levels(w2, h2)\<close>. It is strictly greater once
  the larger maximum is at least twice the smaller one, which is at least 1.
\<close>

theorem mip_levels_monotone:
  "(1 \<le> max w h \<longrightarrow> 1 \<le> compute_mip_level_count w h) \<and>
   (max w1 h1 \<le> max w2 h2 \<longrightarrow>
      compute_mip_level_count w1 h1 \<le> compute_mip_level_count w2 h2) \<and>
   (1 \<le> max w3 h3 \<and> 2 * unat (max w3 h3) \<le> unat (max w4 h4) \<longrightarrow>
      compute_mip_level_count w3 h3 < compute_mip_level_count w4 h4)"
  using mip_level_count_ge_1 mip_level_count_mono mip_level_count_strict by blast

theorem mip_levels_monotone_witness:
  "1 \<le> max (300 :: uint32_t) 1 \<and> 1 \<le> compute_mip_level_count 300 1 \<and>
   max (2 :: uint32_t) 2 \<le> max 3 3 \<and>
   compute_mip_level_count 2 2 \<le> compute_mip_level_count 3 3 \<and>
   1 \<le> max (3 :: uint32_t) 2 \<and> 2 * unat (max (3 :: uint32_t) 2) \<le> unat (max (6 :: uint32_t) 1) \<and>
   compute_mip_level_count 3 2 < compute_mip_level_count 6 1"
  using mip_levels_monotone [of 300 1 2 2 3 3 3 2 6 1] by simp

text \<open>
  C10. For \<open>width = height = 0\<close> the count is 0, because \<open>countl_zero_(0)\<close>
  is 32; for every input with \<open>max(width, height) \<ge> 1\<close> it is at least 1;
  so 0 x 0 is the only input whose count is not positive.
\<close>

theorem mip_level_count_zero_only_at_origin:
  "compute_mip_level_count 0 0 = 0 \<and> countl_zero 0 = 32 \<and>
   (\<forall>w h. 1 \<le> max w h \<longrightarrow> 1 \<le> compute_mip_level_count w h) \<and>
   (\<forall>w h. compute_mip_level_count w h = 0 \<longleftrightarrow> w = 0 \<and> h = 0)"
  using mip_level_count_zero mip_level_count_ge_1 mip_level_count_eq_0_iff
  by (simp add: countl_zero_def)

theorem mip_level_count_zero_only_at_origin_witness:
  "1 \<le> max (1 :: uint32_t) 0 \<and> 1 \<le> compute_mip_level_count 1 0"
  using mip_level_count_zero_only_at_origin [THEN conjunct2, THEN conjunct2, THEN conjunct1,
    rule_format, of 1 0]
  by simp

section \<open>The 512 x 256 upload\<close>

lemma mip_512_256: "compute_mip_level_count 512 256 = 10"
  by (simp add: compute_mip_level_count_def countl_zero_def clz_step_def)

lemma next_mip_size_max: "next_mip_size x = max 1 (x div 2)"
proof -
  have "y \<noteq> 0 \<Longrightarrow> 1 \<le> y" for y :: uint32_t
    using unat_eq_0 [of y] by (simp add: word_le_nat_alt Suc_le_eq)
  then show ?thesis
    by (auto simp: next_mip_size_def drop_bit_eq_div Let_def max_def)
qed

lemma load_image_texture2d_ok:
  assumes "stbi_load env = Some (wi, hi)"
    and "create_buffer env = None" and "vmaMapMemory env = VK_SUCCESS"
    and "vmaCreateImage env = VK_SUCCESS" and "alloc_command_buffer env = None"
    and "vkBeginCommandBuffer env = VK_SUCCESS" and "vkEndCommandBuffer env = VK_SUCCESS"
    and "create_fence env = None" and "vkQueueSubmit env = VK_SUCCESS"
    and "vkWaitForFences env = VK_SUCCESS"
  shows "load_image_texture2d env =
     Inr (\<lparr>imageWidth = word_of_int wi, imageHeight = word_of_int hi,
           mipLevels = compute_mip_level_count (word_of_int wi) (word_of_int hi)\<rparr>,
          upload_commands (word_of_int wi) (word_of_int hi))"
  using assms by (simp add: load_image_texture2d_def create_image_texture2d_def Let_def)

text \<open>
  C3. When every library and driver call succeeds, loading a 512 x 256
  image returns an image with \<open>mip_levels(512, 256) = 10\<close> levels. The
  recorded commands are the ones listed: each blit halves either axis as
  \<open>max(1, previous / 2)\<close>, and the blit into level 9 writes an extent of
  1 x 1; the base level and every blitted level are moved to
  transfer-source layout, and one last barrier over levels 0 to 9 moves
  them to shader-read-only layout. Run from the image's initial layouts,
  the commands respect the layout rules and leave all ten levels in
  shader-read-only layout.
\<close>

theorem upload_512_256:
  assumes "stbi_load env = Some (512, 256)"
    and "create_buffer env = None" and "vmaMapMemory env = VK_SUCCESS"
    and "vmaCreateImage env = VK_SUCCESS" and "alloc_command_buffer env = None"
    and "vkBeginCommandBuffer env = VK_SUCCESS" and "vkEndCommandBuffer env = VK_SUCCESS"
    and "create_fence env = None" and "vkQueueSubmit env = VK_SUCCESS"
    and "vkWaitForFences env = VK_SUCCESS"
  shows "compute_mip_level_count 512 256 = 10 \<and>
    load_image_texture2d env =
      Inr (\<lparr>imageWidth = 512, imageHeight = 256, mipLevels = 10\<rparr>, upload_commands 512 256) \<and>
    upload_commands 512 256 =
      [ImageBarrier VK_IMAGE_LAYOUT_UNDEFINED VK_IMAGE_LAYOUT_TRANSFER_DST_OPTIMAL 0 10,
       CopyBufferToImage 0 512 256,
       ImageBarrier VK_IMAGE_LAYOUT_TRANSFER_DST_OPTIMAL VK_IMAGE_LAYOUT_TRANSFER_SRC_OPTIMAL 0 1,
       BlitImage 0 512 256 1 256 128,
       ImageBarrier VK_IMAGE_LAYOUT_TRANSFER_DST_OPTIMAL VK_IMAGE_LAYOUT_TRANSFER_SRC_OPTIMAL 1 1,
       BlitImage 1 256 128 2 128 64,
       ImageBarrier VK_IMAGE_LAYOUT_TRANSFER_DST_OPTIMAL VK_IMAGE_LAYOUT_TRANSFER_SRC_OPTIMAL 2 1,
       BlitImage 2 128 64 3 64 32,
       ImageBarrier VK_IMAGE_LAYOUT_TRANSFER_DST_OPTIMAL VK_IMAGE_LAYOUT_TRANSFER_SRC_OPTIMAL 3 1,
       BlitImage 3 64 32 4 32 16,
       ImageBarrier VK_IMAGE_LAYOUT_TRANSFER_DST_OPTIMAL VK_IMAGE_LAYOUT_TRANSFER_SRC_OPTIMAL 4 1,
       BlitImage 4 32 16 5 16 8,
       ImageBarrier VK_IMAGE_LAYOUT_TRANSFER_DST_OPTIMAL VK_IMAGE_LAYOUT_TRANSFER_SRC_OPTIMAL 5 1,
       BlitImage 5 16 8 6 8 4,
       ImageBarrier VK_IMAGE_LAYOUT_TRANSFER_DST_OPTIMAL VK_IMAGE_LAYOUT_TRANSFER_SRC_OPTIMAL 6 1,
       BlitImage 6 8 4 7 4 2,
       ImageBarrier VK_IMAGE_LAYOUT_TRANSFER_DST_OPTIMAL VK_IMAGE_LAYOUT_TRANSFER_SRC_OPTIMAL 7 1,
       BlitImage 7 4 2 8 2 1,
       ImageBarrier VK_IMAGE_LAYOUT_TRANSFER_DST_OPTIMAL VK_IMAGE_LAYOUT_TRANSFER_SRC_OPTIMAL 8 1,
       BlitImage 8 2 1 9 1 1,
       ImageBarrier VK_IMAGE_LAYOUT_TRANSFER_DST_OPTIMAL VK_IMAGE_LAYOUT_TRANSFER_SRC_OPTIMAL 9 1,
       ImageBarrier VK_IMAGE_LAYOUT_TRANSFER_SRC_OPTIMAL
         VK_IMAGE_LAYOUT_SHADER_READ_ONLY_OPTIMAL 0 10] \<and>
    exec_commands (upload_commands 512 256)
        (initial_layouts \<lparr>imageWidth = 512, imageHeight = 256, mipLevels = 10\<rparr>) =
      Some (replicate 10 VK_IMAGE_LAYOUT_SHADER_READ_ONLY_OPTIMAL) \<and>
    (\<forall>x. next_mip_size x = max 1 (x div 2))"
proof -
  have load: "load_image_texture2d env =
      Inr (\<lparr>imageWidth = 512, imageHeight = 256, mipLevels = 10\<rparr>, upload_commands 512 256)"
    using load_image_texture2d_ok [OF assms] by (simp add: mip_512_256)
  have lst: "upload_commands 512 256 =
      [ImageBarrier VK_IMAGE_LAYOUT_UNDEFINED VK_IMAGE_LAYOUT_TRANSFER_DST_OPTIMAL 0 10,
       CopyBufferToImage 0 512 256,
       ImageBarrier VK_IMAGE_LAYOUT_TRANSFER_DST_OPTIMAL VK_IMAGE_LAYOUT_TRANSFER_SRC_OPTIMAL 0 1,
       BlitImage 0 512 256 1 256 128,
       ImageBarrier VK_IMAGE_LAYOUT_TRANSFER_DST_OPTIMAL VK_IMAGE_LAYOUT_TRANSFER_SRC_OPTIMAL 1 1,
       BlitImage 1 256 128 2 128 64,
       ImageBarrier VK_IMAGE_LAYOUT_TRANSFER_DST_OPTIMAL VK_IMAGE_LAYOUT_TRANSFER_SRC_OPTIMAL 2 1,
       BlitImage 2 128 64 3 64 32,
       ImageBarrier VK_IMAGE_LAYOUT_TRANSFER_DST_OPTIMAL VK_IMAGE_LAYOUT_TRANSFER_SRC_OPTIMAL 3 1,
       BlitImage 3 64 32 4 32 16,
       ImageBarrier VK_IMAGE_LAYOUT_TRANSFER_DST_OPTIMAL VK_IMAGE_LAYOUT_TRANSFER_SRC_OPTIMAL 4 1,
       BlitImage 4 32 16 5 16 8,
       ImageBarrier VK_IMAGE_LAYOUT_TRANSFER_DST_OPTIMAL VK_IMAGE_LAYOUT_TRANSFER_SRC_OPTIMAL 5 1,
       BlitImage 5 16 8 6 8 4,
       ImageBarrier VK_IMAGE_LAYOUT_TRANSFER_DST_OPTIMAL VK_IMAGE_LAYOUT_TRANSFER_SRC_OPTIMAL 6 1,
       BlitImage 6 8 4 7 4 2,
       ImageBarrier VK_IMAGE_LAYOUT_TRANSFER_DST_OPTIMAL VK_IMAGE_LAYOUT_TRANSFER_SRC_OPTIMAL 7 1,
       BlitImage 7 4 2 8 2 1,
       ImageBarrier VK_IMAGE_LAYOUT_TRANSFER_DST_OPTIMAL VK_IMAGE_LAYOUT_TRANSFER_SRC_OPTIMAL 8 1,
       BlitImage 8 2 1 9 1 1,
       ImageBarrier VK_IMAGE_LAYOUT_TRANSFER_DST_OPTIMAL VK_IMAGE_LAYOUT_TRANSFER_SRC_OPTIMAL 9 1,
       ImageBarrier VK_IMAGE_LAYOUT_TRANSFER_SRC_OPTIMAL
         VK_IMAGE_LAYOUT_SHADER_READ_ONLY_OPTIMAL 0 10]"
    by code_simp
  have ex: "exec_commands (upload_commands 512 256)
       (initial_layouts \<lparr>imageWidth = 512, imageHeight = 256, mipLevels = 10\<rparr>) =
     Some (replicate 10 VK_IMAGE_LAYOUT_SHADER_READ_ONLY_OPTIMAL)"
    by code_simp
  from mip_512_256 load lst ex next_mip_size_max show ?thesis
    by (intro conjI allI)
qed

theorem upload_512_256_witness:
  "load_image_texture2d
     \<lparr>stbi_load = Some (512, 256), create_buffer = None, vmaMapMemory = VK_SUCCESS,
      vmaCreateImage = VK_SUCCESS, alloc_command_buffer = None,
      vkBeginCommandBuffer = VK_SUCCESS, vkEndCommandBuffer = VK_SUCCESS,
      create_fence = None, vkQueueSubmit = VK_SUCCESS, vkWaitForFences = VK_SUCCESS\<rparr> =
     Inr (\<lparr>imageWidth = 512, imageHeight = 256, mipLevels = 10\<rparr>, upload_commands 512 256) \<and>
   exec_commands (upload_commands 512 256)
       (initial_layouts \<lparr>imageWidth = 512, imageHeight = 256, mipLevels = 10\<rparr>) =
     Some (replicate 10 VK_IMAGE_LAYOUT_SHADER_READ_ONLY_OPTIMAL)"
proof (rule conjI)
  let ?env = "\<lparr>stbi_load = Some (512, 256), create_buffer = None, vmaMapMemory = VK_SUCCESS,
      vmaCreateImage = VK_SUCCESS, alloc_command_buffer = None,
      vkBeginCommandBuffer = VK_SUCCESS, vkEndCommandBuffer = VK_SUCCESS,
      create_fence = None, vkQueueSubmit = VK_SUCCESS, vkWaitForFences = VK_SUCCESS\<rparr>"
  show "load_image_texture2d ?env =
     Inr (\<lparr>imageWidth = 512, imageHeight = 256, mipLevels = 10\<rparr>, upload_commands 512 256)"
    by (rule upload_512_256 [of ?env, THEN conjunct2, THEN conjunct1]) simp_all
  show "exec_commands (upload_commands 512 256)
       (initial_layouts \<lparr>imageWidth = 512, imageHeight = 256, mipLevels = 10\<rparr>) =
     Some (replicate 10 VK_IMAGE_LAYOUT_SHADER_READ_ONLY_OPTIMAL)"
    by (rule upload_512_256 [of ?env, THEN conjunct2, THEN conjunct2, THEN conjunct2,
          THEN conjunct1]) simp_all
qed

section \<open>Acquire and present results\<close>

text \<open>
  C9. For image acquisition and for presentation alike: a suboptimal or
  out-of-date result is not an error and sets the recreation flag (after
  an acquire the loop continues with the next iteration, recording nothing
  for the frame); these two results are the only ones that turn a clear
  flag into a set one; every other result that is not success throws; and
  success neither throws nor changes the flag.
\<close>

theorem acquire_present_results:
  "(res = VK_SUBOPTIMAL_KHR \<or> res = VK_ERROR_OUT_OF_DATE_KHR \<longrightarrow>
      acquire_next_image res flag = Inr (True, Continue) \<and>
      present_results res flag = Inr True) \<and>
   (res \<noteq> VK_SUBOPTIMAL_KHR \<and> res \<noteq> VK_ERROR_OUT_OF_DATE_KHR \<and> res \<noteq> VK_SUCCESS \<longrightarrow>
      (\<exists>msg. acquire_next_image res flag = Inl (Thrown msg)) \<and>
      (\<exists>msg. present_results res flag = Inl (Thrown msg))) \<and>
   (res = VK_SUCCESS \<longrightarrow>
      acquire_next_image res flag = Inr (flag, Proceed) \<and>
      present_results res flag = Inr flag) \<and>
   ((\<exists>act. acquire_next_image res False = Inr (True, act)) \<longleftrightarrow>
      res = VK_SUBOPTIMAL_KHR \<or> res = VK_ERROR_OUT_OF_DATE_KHR) \<and>
   (present_results res False = Inr True \<longleftrightarrow>
      res = VK_SUBOPTIMAL_KHR \<or> res = VK_ERROR_OUT_OF_DATE_KHR)"
  by (auto simp: acquire_next_image_def present_results_def)

theorem acquire_present_results_witness:
  "acquire_next_image VK_SUBOPTIMAL_KHR False = Inr (True, Continue) \<and>
   present_results VK_ERROR_OUT_OF_DATE_KHR False = Inr True \<and>
   (\<exists>msg. acquire_next_image (VK_RESULT_OTHER (- 4)) False = Inl (Thrown msg)) \<and>
   (\<exists>msg. present_results (VK_RESULT_OTHER (- 4)) False = Inl (Thrown msg)) \<and>
   acquire_next_image VK_SUCCESS False = Inr (False, Proceed) \<and>
   present_results VK_SUCCESS False = Inr False"
  using acquire_present_results [of VK_SUBOPTIMAL_KHR False]
    acquire_present_results [of VK_ERROR_OUT_OF_DATE_KHR False]
    acquire_present_results [of "VK_RESULT_OTHER (- 4)" False]
    acquire_present_results [of VK_SUCCESS False]
  by simp

section \<open>Image count and extent of a new swapchain\<close>

lemma requested_image_count_eq:
  "requested_image_count caps = max 2 (minImageCount caps + 1)"
  by (auto simp: requested_image_count_def Let_def max_def not_less)

lemma swapchain_image_count_steps:
  "swapchain_image_count caps =
     (if 0 < maxImageCount caps \<and> maxImageCount caps < requested_image_count caps
      then maxImageCount caps else requested_image_count caps)"
  by (simp add: swapchain_image_count_def requested_image_count_def Let_def)

lemma swapchain_image_count_le_max:
  "0 < maxImageCount caps \<Longrightarrow> swapchain_image_count caps \<le> maxImageCount caps"
  by (simp add: swapchain_image_count_steps not_less)

lemma unat_plus_one_no_wrap:
  assumes "(x :: uint32_t) \<noteq> 0xFFFFFFFF"
  shows "unat (x + 1) = unat x + 1"
proof -
  have "unat x \<noteq> unat (0xFFFFFFFF :: uint32_t)"
    using assms by (simp only: word_unat_eq_iff not_False_eq_True)
  moreover have "unat x < 2 ^ 32"
    using unsigned_less [of x] by simp
  ultimately have "unat x + 1 < 2 ^ 32"
    by simp
  then show ?thesis
    by (simp add: unat_word_ariths)
qed

lemma requested_image_count_no_wrap:
  assumes "minImageCount caps \<noteq> 0xFFFFFFFF"
  shows "unat (minImageCount caps) + 1 \<le> unat (requested_image_count caps)"
proof -
  note unat_plus_one_no_wrap [OF assms]
  moreover have "minImageCount caps + 1 \<le> requested_image_count caps"
    by (simp add: requested_image_count_eq)
  ultimately show ?thesis
    by (simp add: word_le_nat_alt)
qed

text \<open>
  C5. \<open>create_swapchain\<close> first asks for at least \<open>minImageCount + 1\<close> images,
  and never for fewer than 2. Then, when the surface declares a non-zero
  maximum, a request above it is clamped down to that maximum; with no
  maximum, or a request within it, the request is the chosen count. In
  particular, when \<open>0 < maxImageCount \<le> minImageCount\<close> the chosen count is
  the maximum, which is below \<open>minImageCount + 1\<close> and at most
  \<open>minImageCount\<close>: nothing raises it again. The sum \<open>minImageCount + 1\<close> is
  the code's 32-bit sum; it is the mathematical sum unless \<open>minImageCount\<close>
  is \<open>0xFFFFFFFF\<close>, and the comparisons are given for both readings. The
  chosen count is the \<open>minImageCount\<close> of the creation request.
\<close>

theorem image_count_request_then_clamp:
  "2 \<le> requested_image_count caps \<and>
   minImageCount caps + 1 \<le> requested_image_count caps \<and>
   (minImageCount caps \<noteq> 0xFFFFFFFF \<longrightarrow>
      unat (minImageCount caps) + 1 \<le> unat (requested_image_count caps)) \<and>
   swapchain_image_count caps =
     (if 0 < maxImageCount caps \<and> maxImageCount caps < requested_image_count caps
      then maxImageCount caps else requested_image_count caps) \<and>
   (maxImageCount caps = 0 \<or> requested_image_count caps \<le> maxImageCount caps \<longrightarrow>
      swapchain_image_count caps = requested_image_count caps) \<and>
   (0 < maxImageCount caps \<longrightarrow> swapchain_image_count caps \<le> maxImageCount caps) \<and>
   (0 < maxImageCount caps \<and> maxImageCount caps \<le> minImageCount caps \<longrightarrow>
      unat (swapchain_image_count caps) < unat (minImageCount caps) + 1 \<and>
      swapchain_image_count caps \<le> minImageCount caps \<and>
      (minImageCount caps \<noteq> 0xFFFFFFFF \<longrightarrow>
         swapchain_image_count caps = maxImageCount caps \<and>
         swapchain_image_count caps < minImageCount caps + 1)) \<and>
   (\<forall>env fmt q old.
      chainMinImageCount (swapchain_create_info env fmt q old) =
        swapchain_image_count (surfaceCaps env))"
proof (intro conjI impI allI)
  show "2 \<le> requested_image_count caps"
    and "minImageCount caps + 1 \<le> requested_image_count caps"
    by (simp_all add: requested_image_count_eq)
  show "swapchain_image_count caps =
     (if 0 < maxImageCount caps \<and> maxImageCount caps < requested_image_count caps
      then maxImageCount caps else requested_image_count caps)"
    by (rule swapchain_image_count_steps)
next
  assume "minImageCount caps \<noteq> 0xFFFFFFFF"
  then show "unat (minImageCount caps) + 1 \<le> unat (requested_image_count caps)"
    by (rule requested_image_count_no_wrap)
next
  assume "maxImageCount caps = 0 \<or> requested_image_count caps \<le> maxImageCount caps"
  then show "swapchain_image_count caps = requested_image_count caps"
    by (auto simp: swapchain_image_count_steps)
next
  assume "0 < maxImageCount caps"
  then show "swapchain_image_count caps \<le> maxImageCount caps"
    by (rule swapchain_image_count_le_max)
next
  assume a: "0 < maxImageCount caps \<and> maxImageCount caps \<le> minImageCount caps"
  then have "swapchain_image_count caps \<le> maxImageCount caps"
    and "maxImageCount caps \<le> minImageCount caps"
    using swapchain_image_count_le_max [of caps] by simp_all
  then show le: "swapchain_image_count caps \<le> minImageCount caps"
    by (rule order_trans)
  then show "unat (swapchain_image_count caps) < unat (minImageCount caps) + 1"
    by (simp add: word_le_nat_alt)
  assume nw: "minImageCount caps \<noteq> 0xFFFFFFFF"
  from requested_image_count_no_wrap [OF nw] a
  have "maxImageCount caps < requested_image_count caps"
    by (simp add: word_le_nat_alt word_less_nat_alt)
  with a show eq: "swapchain_image_count caps = maxImageCount caps"
    by (simp add: swapchain_image_count_steps)
  have "minImageCount caps < minImageCount caps + 1"
    using unat_plus_one_no_wrap [OF nw] by (simp add: word_less_nat_alt)
  with le show "swapchain_image_count caps < minImageCount caps + 1"
    by simp
next
  fix env fmt q old
  show "chainMinImageCount (swapchain_create_info env fmt q old) =
      swapchain_image_count (surfaceCaps env)"
    by (simp add: swapchain_create_info_def)
qed


theorem image_count_request_then_clamp_witness:
  "minImageCount (sample_caps 2 8 \<lparr>width = 1280, height = 720\<rparr>) \<noteq> 0xFFFFFFFF \<and>
   requested_image_count (sample_caps 2 8 \<lparr>width = 1280, height = 720\<rparr>) = 3 \<and>
   requested_image_count (sample_caps 2 8 \<lparr>width = 1280, height = 720\<rparr>)
     \<le> maxImageCount (sample_caps 2 8 \<lparr>width = 1280, height = 720\<rparr>) \<and>
   swapchain_image_count (sample_caps 2 8 \<lparr>width = 1280, height = 720\<rparr>) = 3 \<and>
   maxImageCount (sample_caps 0 0 \<lparr>width = 1280, height = 720\<rparr>) = 0 \<and>
   swapchain_image_count (sample_caps 0 0 \<lparr>width = 1280, height = 720\<rparr>) = 2 \<and>
   0 < maxImageCount (sample_caps 2 2 \<lparr>width = 1280, height = 720\<rparr>) \<and>
   maxImageCount (sample_caps 2 2 \<lparr>width = 1280, height = 720\<rparr>)
     \<le> minImageCount (sample_caps 2 2 \<lparr>width = 1280, height = 720\<rparr>) \<and>
   minImageCount (sample_caps 2 2 \<lparr>width = 1280, height = 720\<rparr>) \<noteq> 0xFFFFFFFF \<and>
   requested_image_count (sample_caps 2 2 \<lparr>width = 1280, height = 720\<rparr>) = 3 \<and>
   swapchain_image_count (sample_caps 2 2 \<lparr>width = 1280, height = 720\<rparr>) = 2 \<and>
   swapchain_image_count (sample_caps 2 2 \<lparr>width = 1280, height = 720\<rparr>)
     < minImageCount (sample_caps 2 2 \<lparr>width = 1280, height = 720\<rparr>) + 1"
proof -
  let ?a = "sample_caps 2 8 \<lparr>width = 1280, height = 720\<rparr>"
  let ?z = "sample_caps 0 0 \<lparr>width = 1280, height = 720\<rparr>"
  let ?b = "sample_caps 2 2 \<lparr>width = 1280, height = 720\<rparr>"
  have ra: "requested_image_count ?a = 3" and rb: "requested_image_count ?b = 3"
    and rz: "requested_image_count ?z = 2"
    by (simp_all add: requested_image_count_def sample_caps_def word_less_nat_alt)
  have fa: "minImageCount ?a \<noteq> 0xFFFFFFFF" "requested_image_count ?a \<le> maxImageCount ?a"
    unfolding ra by (simp_all add: sample_caps_def word_le_nat_alt)
  have fz: "maxImageCount ?z = 0"
    and fb: "0 < maxImageCount ?b" "maxImageCount ?b \<le> minImageCount ?b"
      "minImageCount ?b \<noteq> 0xFFFFFFFF"
    by (simp_all add: sample_caps_def word_le_nat_alt)
  note ta = image_count_request_then_clamp [of ?a]
  note tz = image_count_request_then_clamp [of ?z]
  note tb = image_count_request_then_clamp [of ?b]
  from ta fa(2) have "swapchain_image_count ?a = requested_image_count ?a" by blast
  with ra have ca: "swapchain_image_count ?a = 3" by simp
  from tz fz have "swapchain_image_count ?z = requested_image_count ?z" by blast
  with rz have cz: "swapchain_image_count ?z = 2" by simp
  from tb fb have cb: "swapchain_image_count ?b = maxImageCount ?b"
    and lb: "swapchain_image_count ?b < minImageCount ?b + 1"
    by blast+
  from cb have cb': "swapchain_image_count ?b = 2"
    by (simp add: sample_caps_def)
  from fa(1) ra fa(2) ca fz cz fb rb cb' lb show ?thesis
    by (intro conjI)
qed

lemma std_clamp_bounds: "lo \<le> hi \<Longrightarrow> lo \<le> std_clamp v lo hi \<and> std_clamp v lo hi \<le> hi"
  by (auto simp: std_clamp_def)

lemma std_clamp_id: "lo \<le> v \<Longrightarrow> v \<le> hi \<Longrightarrow> std_clamp v lo hi = v"
  by (auto simp: std_clamp_def)

lemma create_swapchain_extent:
  "create_swapchain env q old = (Inr (chain, fmt, extent), calls) \<Longrightarrow>
   extent = swapchain_extent (surfaceCaps env) (framebufferSize env)"
  by (auto simp: create_swapchain_def swapchain_create_info_def Let_def
      split: list.splits if_splits prod.splits)

text \<open>
  C6. \<open>create_swapchain\<close> takes the surface's \<open>currentExtent\<close> unless its
  width is \<open>0xFFFFFFFF\<close>; exactly then width and height come from the
  framebuffer size, each clamped on its own between the surface's minimum
  and maximum extent (inside the bounds whenever the minimum does not exceed
  the maximum, and unchanged when already inside). The extent so chosen is
  the one a successful \<open>create_swapchain\<close> returns.
\<close>

theorem swapchain_extent_choice:
  "(width (currentExtent caps) \<noteq> 0xFFFFFFFF \<longrightarrow>
      swapchain_extent caps (fbw, fbh) = currentExtent caps) \<and>
   (width (currentExtent caps) = 0xFFFFFFFF \<longrightarrow>
      width (swapchain_extent caps (fbw, fbh)) =
        std_clamp (word_of_int fbw) (width (minImageExtent caps)) (width (maxImageExtent caps)) \<and>
      height (swapchain_extent caps (fbw, fbh)) =
        std_clamp (word_of_int fbh) (height (minImageExtent caps)) (height (maxImageExtent caps))) \<and>
   (width (currentExtent caps) = 0xFFFFFFFF \<and>
    width (minImageExtent caps) \<le> width (maxImageExtent caps) \<longrightarrow>
      width (minImageExtent caps) \<le> width (swapchain_extent caps (fbw, fbh)) \<and>
      width (swapchain_extent caps (fbw, fbh)) \<le> width (maxImageExtent caps) \<and>
      (width (minImageExtent caps) \<le> word_of_int fbw \<and>
       word_of_int fbw \<le> width (maxImageExtent caps) \<longrightarrow>
         width (swapchain_extent caps (fbw, fbh)) = word_of_int fbw)) \<and>
   (width (currentExtent caps) = 0xFFFFFFFF \<and>
    height (minImageExtent caps) \<le> height (maxImageExtent caps) \<longrightarrow>
      height (minImageExtent caps) \<le> height (swapchain_extent caps (fbw, fbh)) \<and>
      height (swapchain_extent caps (fbw, fbh)) \<le> height (maxImageExtent caps) \<and>
      (height (minImageExtent caps) \<le> word_of_int fbh \<and>
       word_of_int fbh \<le> height (maxImageExtent caps) \<longrightarrow>
         height (swapchain_extent caps (fbw, fbh)) = word_of_int fbh)) \<and>
   (\<forall>env q old chain fmt extent calls.
      create_swapchain env q old = (Inr (chain, fmt, extent), calls) \<longrightarrow>
        extent = swapchain_extent (surfaceCaps env) (framebufferSize env))"
  using std_clamp_bounds std_clamp_id create_swapchain_extent
  by (auto simp: swapchain_extent_def Let_def)

theorem swapchain_extent_choice_witness:
  "width (currentExtent (sample_caps 2 8 \<lparr>width = 1280, height = 720\<rparr>)) \<noteq> 0xFFFFFFFF \<and>
   swapchain_extent (sample_caps 2 8 \<lparr>width = 1280, height = 720\<rparr>) (5000, 50) =
     \<lparr>width = 1280, height = 720\<rparr> \<and>
   width (currentExtent (sample_caps 2 8 \<lparr>width = 0xFFFFFFFF, height = 0xFFFFFFFF\<rparr>)) =
     0xFFFFFFFF \<and>
   swapchain_extent (sample_caps 2 8 \<lparr>width = 0xFFFFFFFF, height = 0xFFFFFFFF\<rparr>) (5000, 50) =
     \<lparr>width = 4096, height = 50\<rparr> \<and>
   swapchain_extent (sample_caps 2 8 \<lparr>width = 0xFFFFFFFF, height = 0xFFFFFFFF\<rparr>) (8, 720) =
     \<lparr>width = 16, height = 720\<rparr> \<and>
   (\<exists>chain fmt calls.
      create_swapchain (sample_env VK_SUCCESS) [] 41 =
        (Inr (chain, fmt, swapchain_extent (surfaceCaps (sample_env VK_SUCCESS))
                            (framebufferSize (sample_env VK_SUCCESS))), calls))"
proof -
  let ?def = "sample_caps 2 8 \<lparr>width = 1280, height = 720\<rparr>"
  let ?undef = "sample_caps 2 8 \<lparr>width = 0xFFFFFFFF, height = 0xFFFFFFFF\<rparr>"
  let ?c = "create_swapchain (sample_env VK_SUCCESS) [] 41"
  have d: "width (currentExtent ?def) \<noteq> 0xFFFFFFFF"
    and u: "width (currentExtent ?undef) = 0xFFFFFFFF"
    by (simp_all add: sample_caps_def)
  have e1: "swapchain_extent ?def (5000, 50) = \<lparr>width = 1280, height = 720\<rparr>"
    using swapchain_extent_choice [of ?def 5000 50] d by (simp add: sample_caps_def)
  have e2: "swapchain_extent ?undef (5000, 50) = \<lparr>width = 4096, height = 50\<rparr>"
    using swapchain_extent_choice [of ?undef 5000 50] u
    by (simp add: sample_caps_def std_clamp_def word_le_nat_alt word_less_nat_alt)
  have e3: "swapchain_extent ?undef (8, 720) = \<lparr>width = 16, height = 720\<rparr>"
    using swapchain_extent_choice [of ?undef 8 720] u
    by (simp add: sample_caps_def std_clamp_def word_le_nat_alt word_less_nat_alt)
  obtain chain fmt extent where "fst ?c = Inr (chain, fmt, extent)"
    by (simp add: create_swapchain_def sample_env_def get_surface_formats_def Let_def)
  then have c: "?c = (Inr (chain, fmt, extent), snd ?c)"
    by (metis prod.collapse)
  from swapchain_extent_choice [of ?def 0 0, THEN conjunct2, THEN conjunct2, THEN conjunct2,
      THEN conjunct2, rule_format, OF c] c
  have "\<exists>chain fmt calls. ?c =
      (Inr (chain, fmt, swapchain_extent (surfaceCaps (sample_env VK_SUCCESS))
                          (framebufferSize (sample_env VK_SUCCESS))), calls)"
    by blast
  with d e1 u e2 e3 show ?thesis by (intro conjI)
qed

section \<open>Device selection\<close>

lemma find_queue_family_from_None_iff:
  "find_queue_family_from i fs fl s = None \<longleftrightarrow>
     list_all (\<lambda>f. \<not> (fl = (fl AND queueFlags f) \<and>
        (s = VK_NULL_HANDLE \<or> surfaceSupportRes f = VK_SUCCESS \<and> surfaceSupported f))) fs"
  by (induction fs arbitrary: i) auto

lemma present_check_None_iff:
  "s \<noteq> VK_NULL_HANDLE \<Longrightarrow> find_queue_family d 0 s = None \<longleftrightarrow> no_present_family d"
  by (simp add: find_queue_family_def find_queue_family_from_None_iff no_present_family_def)

lemma graphics_check_None_iff:
  "find_queue_family d VK_QUEUE_GRAPHICS_BIT VK_NULL_HANDLE = None \<longleftrightarrow> no_graphics_family d"
proof -
  have "(VK_QUEUE_GRAPHICS_BIT = (VK_QUEUE_GRAPHICS_BIT AND x)) =
        (x AND VK_QUEUE_GRAPHICS_BIT = VK_QUEUE_GRAPHICS_BIT)" for x
    by (auto simp: and.commute)
  then show ?thesis
    by (simp add: find_queue_family_def find_queue_family_from_None_iff no_graphics_family_def)
qed

lemma score_device_values: "score_device d s \<in> {- 1, 0, 100, 500}"
  by (simp add: score_device_def Let_def)

lemma score_device_rejected_iff:
  assumes "s \<noteq> VK_NULL_HANDLE"
  shows "score_device d s = - 1 \<longleftrightarrow> rejected d"
  using present_check_None_iff [OF assms, of d] graphics_check_None_iff [of d]
  by (auto simp: score_device_def Let_def rejected_def api_version_below_minimum_def
      lacks_swapchain_extension_def)

lemma select_loop_cases:
  "(select_loop ds s (b, bd) = (b, bd) \<and> (\<forall>d\<in>set ds. score_device d s \<le> b)) \<or>
   (\<exists>i<length ds.
      select_loop ds s (b, bd) = (score_device (ds ! i) s, Some (ds ! i)) \<and>
      b < score_device (ds ! i) s \<and>
      (\<forall>j<i. score_device (ds ! j) s < score_device (ds ! i) s) \<and>
      (\<forall>j<length ds. score_device (ds ! j) s \<le> score_device (ds ! i) s))"
proof (induction ds arbitrary: b bd)
  case Nil
  show ?case by simp
next
  case (Cons d ds)
  let ?sc = "\<lambda>x. score_device x s"
  show ?case
  proof (cases "?sc d > b")
    case True
    then have step: "select_loop (d # ds) s (b, bd) = select_loop ds s (?sc d, Some d)"
      by (simp add: Let_def)
    from Cons.IH [of "?sc d" "Some d"] show ?thesis
    proof
      assume a: "select_loop ds s (?sc d, Some d) = (?sc d, Some d) \<and> (\<forall>x\<in>set ds. ?sc x \<le> ?sc d)"
      have "\<forall>j<length (d # ds). ?sc ((d # ds) ! j) \<le> ?sc d"
        using a by (auto simp: nth_Cons split: nat.splits)
      with a True step have "0 < length (d # ds) \<and>
          select_loop (d # ds) s (b, bd) = (?sc ((d # ds) ! 0), Some ((d # ds) ! 0)) \<and>
          b < ?sc ((d # ds) ! 0) \<and>
          (\<forall>j<0. ?sc ((d # ds) ! j) < ?sc ((d # ds) ! 0)) \<and>
          (\<forall>j<length (d # ds). ?sc ((d # ds) ! j) \<le> ?sc ((d # ds) ! 0))"
        by simp
      then show ?thesis by blast
    next
      assume "\<exists>i<length ds.
        select_loop ds s (?sc d, Some d) = (?sc (ds ! i), Some (ds ! i)) \<and>
        ?sc d < ?sc (ds ! i) \<and>
        (\<forall>j<i. ?sc (ds ! j) < ?sc (ds ! i)) \<and>
        (\<forall>j<length ds. ?sc (ds ! j) \<le> ?sc (ds ! i))"
      then obtain i where i: "i < length ds"
        and sel: "select_loop ds s (?sc d, Some d) = (?sc (ds ! i), Some (ds ! i))"
        and gt: "?sc d < ?sc (ds ! i)"
        and before: "\<forall>j<i. ?sc (ds ! j) < ?sc (ds ! i)"
        and all: "\<forall>j<length ds. ?sc (ds ! j) \<le> ?sc (ds ! i)"
        by blast
      have "Suc i < length (d # ds) \<and>
          select_loop (d # ds) s (b, bd) = (?sc ((d # ds) ! Suc i), Some ((d # ds) ! Suc i)) \<and>
          b < ?sc ((d # ds) ! Suc i) \<and>
          (\<forall>j<Suc i. ?sc ((d # ds) ! j) < ?sc ((d # ds) ! Suc i)) \<and>
          (\<forall>j<length (d # ds). ?sc ((d # ds) ! j) \<le> ?sc ((d # ds) ! Suc i))"
        using i sel gt before all True step
        by (auto simp: nth_Cons split: nat.splits)
      then show ?thesis by blast
    qed
  next
    case False
    then have step: "select_loop (d # ds) s (b, bd) = select_loop ds s (b, bd)"
      by (simp add: Let_def)
    from Cons.IH [of b bd] show ?thesis
    proof
      assume "select_loop ds s (b, bd) = (b, bd) \<and> (\<forall>x\<in>set ds. ?sc x \<le> b)"
      then show ?thesis using False step by auto
    next
      assume "\<exists>i<length ds.
        select_loop ds s (b, bd) = (?sc (ds ! i), Some (ds ! i)) \<and>
        b < ?sc (ds ! i) \<and>
        (\<forall>j<i. ?sc (ds ! j) < ?sc (ds ! i)) \<and>
        (\<forall>j<length ds. ?sc (ds ! j) \<le> ?sc (ds ! i))"
      then obtain i where i: "i < length ds"
        and sel: "select_loop ds s (b, bd) = (?sc (ds ! i), Some (ds ! i))"
        and gt: "b < ?sc (ds ! i)"
        and before: "\<forall>j<i. ?sc (ds ! j) < ?sc (ds ! i)"
        and all: "\<forall>j<length ds. ?sc (ds ! j) \<le> ?sc (ds ! i)"
        by blast
      have "Suc i < length (d # ds) \<and>
          select_loop (d # ds) s (b, bd) = (?sc ((d # ds) ! Suc i), Some ((d # ds) ! Suc i)) \<and>
          b < ?sc ((d # ds) ! Suc i) \<and>
          (\<forall>j<Suc i. ?sc ((d # ds) ! j) < ?sc ((d # ds) ! Suc i)) \<and>
          (\<forall>j<length (d # ds). ?sc ((d # ds) ! j) \<le> ?sc ((d # ds) ! Suc i))"
        using i sel gt before all False step
        by (auto simp: nth_Cons split: nat.splits)
      then show ?thesis by blast
    qed
  qed
qed


text \<open>
  C4. For a surface that is not the null handle: a device whose API
  version is below 1.2 (the minimum the code tests), or that lacks
  \<open>VK_KHR_swapchain\<close>, or that has no queue family presenting to the
  surface, or that has no graphics queue family, scores \<open>-1\<close>. Once the
  enumeration has succeeded, \<open>select_device\<close> only ever returns an
  enumerated device that is not rejected; if some device is not rejected,
  it returns one of highest score, and every device enumerated before the
  returned one has a strictly lower score, so the earliest of the best
  wins; if every device is rejected it returns the null handle.
\<close>

theorem device_selection:
  assumes "aSurface \<noteq> VK_NULL_HANDLE"
    and "enumCountRes aInstance = VK_SUCCESS" and "enumListRes aInstance = VK_SUCCESS"
  shows "(\<forall>d. rejected d \<longrightarrow> score_device d aSurface = - 1) \<and>
    (\<forall>d. select_device aInstance aSurface = Inr (Some d) \<longrightarrow>
       d \<in> set (enumDevices aInstance) \<and> \<not> rejected d) \<and>
    ((\<exists>d\<in>set (enumDevices aInstance). \<not> rejected d) \<longrightarrow>
       (\<exists>i<length (enumDevices aInstance).
          select_device aInstance aSurface = Inr (Some (enumDevices aInstance ! i)) \<and>
          \<not> rejected (enumDevices aInstance ! i) \<and>
          (\<forall>j<length (enumDevices aInstance).
             score_device (enumDevices aInstance ! j) aSurface
               \<le> score_device (enumDevices aInstance ! i) aSurface) \<and>
          (\<forall>j<i. score_device (enumDevices aInstance ! j) aSurface
               < score_device (enumDevices aInstance ! i) aSurface))) \<and>
    ((\<forall>d\<in>set (enumDevices aInstance). rejected d) \<longrightarrow>
       select_device aInstance aSurface = Inr None)"
proof -
  let ?ds = "enumDevices aInstance"
  let ?sc = "\<lambda>d. score_device d aSurface"
  note rej = score_device_rejected_iff [OF assms(1)]
  have sel: "select_device aInstance aSurface = Inr (snd (select_loop ?ds aSurface (- 1, None)))"
    using assms(2,3) by (simp add: select_device_def)
  have low: "?sc d \<le> - 1 \<longleftrightarrow> rejected d" for d
    using score_device_values [of d aSurface] rej [of d] by auto
  have none: "select_loop ?ds aSurface (- 1, None) = (- 1, None)"
    if "\<forall>d\<in>set ?ds. rejected d"
  proof -
    have le: "?sc (?ds ! i) \<le> - 1" if "i < length ?ds" for i
      using that \<open>\<forall>d\<in>set ?ds. rejected d\<close> low nth_mem by blast
    have "\<not> (\<exists>i<length ?ds. - 1 < ?sc (?ds ! i))"
    proof
      assume "\<exists>i<length ?ds. - 1 < ?sc (?ds ! i)"
      then obtain i where "i < length ?ds" and "- 1 < ?sc (?ds ! i)" by blast
      with le [of i] show False by simp
    qed
    with select_loop_cases [of ?ds aSurface "- 1" None] show ?thesis by blast
  qed
  have some: "\<exists>i<length ?ds.
      select_loop ?ds aSurface (- 1, None) = (?sc (?ds ! i), Some (?ds ! i)) \<and>
      - 1 < ?sc (?ds ! i) \<and>
      (\<forall>j<i. ?sc (?ds ! j) < ?sc (?ds ! i)) \<and>
      (\<forall>j<length ?ds. ?sc (?ds ! j) \<le> ?sc (?ds ! i))"
    if "\<not> (\<forall>d\<in>set ?ds. rejected d)"
    using select_loop_cases [of ?ds aSurface "- 1" None] that low by blast
  have c1: "\<forall>d. rejected d \<longrightarrow> ?sc d = - 1"
    using rej by simp
  have c2: "\<forall>d. select_device aInstance aSurface = Inr (Some d) \<longrightarrow>
       d \<in> set ?ds \<and> \<not> rejected d"
  proof (intro allI impI)
    fix d assume d: "select_device aInstance aSurface = Inr (Some d)"
    have "\<not> (\<forall>d\<in>set ?ds. rejected d)"
    proof
      assume "\<forall>d\<in>set ?ds. rejected d"
      from none [OF this] d sel show False by simp
    qed
    from some [OF this] obtain i where "i < length ?ds"
      and "select_loop ?ds aSurface (- 1, None) = (?sc (?ds ! i), Some (?ds ! i))"
      and "- 1 < ?sc (?ds ! i)"
      by blast
    with d sel have "d = ?ds ! i" "i < length ?ds" "\<not> ?sc d \<le> - 1" by auto
    then show "d \<in> set ?ds \<and> \<not> rejected d"
      using low by auto
  qed
  have c3: "(\<exists>d\<in>set ?ds. \<not> rejected d) \<longrightarrow>
       (\<exists>i<length ?ds.
          select_device aInstance aSurface = Inr (Some (?ds ! i)) \<and>
          \<not> rejected (?ds ! i) \<and>
          (\<forall>j<length ?ds. ?sc (?ds ! j) \<le> ?sc (?ds ! i)) \<and>
          (\<forall>j<i. ?sc (?ds ! j) < ?sc (?ds ! i)))"
  proof
    assume "\<exists>d\<in>set ?ds. \<not> rejected d"
    then have "\<not> (\<forall>d\<in>set ?ds. rejected d)" by blast
    from some [OF this] obtain i where i: "i < length ?ds"
      and l: "select_loop ?ds aSurface (- 1, None) = (?sc (?ds ! i), Some (?ds ! i))"
      and g: "- 1 < ?sc (?ds ! i)"
      and b: "\<forall>j<i. ?sc (?ds ! j) < ?sc (?ds ! i)"
      and a: "\<forall>j<length ?ds. ?sc (?ds ! j) \<le> ?sc (?ds ! i)"
      by blast
    have "\<not> rejected (?ds ! i)" using g low [of "?ds ! i"] by auto
    moreover have "select_device aInstance aSurface = Inr (Some (?ds ! i))"
      using sel l by simp
    ultimately show "\<exists>i<length ?ds.
          select_device aInstance aSurface = Inr (Some (?ds ! i)) \<and>
          \<not> rejected (?ds ! i) \<and>
          (\<forall>j<length ?ds. ?sc (?ds ! j) \<le> ?sc (?ds ! i)) \<and>
          (\<forall>j<i. ?sc (?ds ! j) < ?sc (?ds ! i))"
      using i a b by blast
  qed
  have c4: "(\<forall>d\<in>set ?ds. rejected d) \<longrightarrow> select_device aInstance aSurface = Inr None"
    using none sel by simp
  from c1 c2 c3 c4 show ?thesis by (intro conjI)
qed

theorem device_selection_witness:
  "(1 :: handle) \<noteq> VK_NULL_HANDLE \<and>
   rejected
     \<lparr>apiVersion = 0x401000, deviceType = VK_PHYSICAL_DEVICE_TYPE_DISCRETE_GPU,
       deviceExtensions = [''VK_KHR_maintenance1'', ''VK_KHR_swapchain''],
       queueFamilies = [\<lparr>queueFlags = 7, surfaceSupportRes = VK_SUCCESS, surfaceSupported = True\<rparr>]\<rparr> \<and>
   score_device
     \<lparr>apiVersion = 0x401000, deviceType = VK_PHYSICAL_DEVICE_TYPE_DISCRETE_GPU,
       deviceExtensions = [''VK_KHR_maintenance1'', ''VK_KHR_swapchain''],
       queueFamilies = [\<lparr>queueFlags = 7, surfaceSupportRes = VK_SUCCESS, surfaceSupported = True\<rparr>]\<rparr> 1 = - 1 \<and>
   select_device
     \<lparr>enumCountRes = VK_SUCCESS, enumListRes = VK_SUCCESS,
      enumDevices =
       [\<lparr>apiVersion = 0x401000, deviceType = VK_PHYSICAL_DEVICE_TYPE_DISCRETE_GPU,
       deviceExtensions = [''VK_KHR_maintenance1'', ''VK_KHR_swapchain''],
       queueFamilies = [\<lparr>queueFlags = 7, surfaceSupportRes = VK_SUCCESS, surfaceSupported = True\<rparr>]\<rparr>,
        \<lparr>apiVersion = 0x403000, deviceType = VK_PHYSICAL_DEVICE_TYPE_INTEGRATED_GPU,
       deviceExtensions = [''VK_KHR_maintenance1'', ''VK_KHR_swapchain''],
       queueFamilies = [\<lparr>queueFlags = 7, surfaceSupportRes = VK_SUCCESS, surfaceSupported = True\<rparr>]\<rparr>,
        \<lparr>apiVersion = 0x402000, deviceType = VK_PHYSICAL_DEVICE_TYPE_DISCRETE_GPU,
       deviceExtensions = [''VK_KHR_maintenance1'', ''VK_KHR_swapchain''],
       queueFamilies = [\<lparr>queueFlags = 3, surfaceSupportRes = VK_SUCCESS, surfaceSupported = False\<rparr>, \<lparr>queueFlags = 4, surfaceSupportRes = VK_SUCCESS, surfaceSupported = True\<rparr>]\<rparr>,
        \<lparr>apiVersion = 0x403000, deviceType = VK_PHYSICAL_DEVICE_TYPE_DISCRETE_GPU,
       deviceExtensions = [''VK_KHR_maintenance1'', ''VK_KHR_swapchain''],
       queueFamilies = [\<lparr>queueFlags = 7, surfaceSupportRes = VK_SUCCESS, surfaceSupported = True\<rparr>]\<rparr>]\<rparr> 1 =
     Inr (Some
       \<lparr>apiVersion = 0x402000, deviceType = VK_PHYSICAL_DEVICE_TYPE_DISCRETE_GPU,
       deviceExtensions = [''VK_KHR_maintenance1'', ''VK_KHR_swapchain''],
       queueFamilies = [\<lparr>queueFlags = 3, surfaceSupportRes = VK_SUCCESS, surfaceSupported = False\<rparr>, \<lparr>queueFlags = 4, surfaceSupportRes = VK_SUCCESS, surfaceSupported = True\<rparr>]\<rparr>) \<and>
   \<not> rejected
     \<lparr>apiVersion = 0x402000, deviceType = VK_PHYSICAL_DEVICE_TYPE_DISCRETE_GPU,
       deviceExtensions = [''VK_KHR_maintenance1'', ''VK_KHR_swapchain''],
       queueFamilies = [\<lparr>queueFlags = 3, surfaceSupportRes = VK_SUCCESS, surfaceSupported = False\<rparr>, \<lparr>queueFlags = 4, surfaceSupportRes = VK_SUCCESS, surfaceSupported = True\<rparr>]\<rparr>"
proof -
  let ?old = "\<lparr>apiVersion = 0x401000, deviceType = VK_PHYSICAL_DEVICE_TYPE_DISCRETE_GPU,
       deviceExtensions = [''VK_KHR_maintenance1'', ''VK_KHR_swapchain''],
       queueFamilies = [\<lparr>queueFlags = 7, surfaceSupportRes = VK_SUCCESS, surfaceSupported = True\<rparr>]\<rparr>"
  let ?g1 = "\<lparr>apiVersion = 0x402000, deviceType = VK_PHYSICAL_DEVICE_TYPE_DISCRETE_GPU,
       deviceExtensions = [''VK_KHR_maintenance1'', ''VK_KHR_swapchain''],
       queueFamilies = [\<lparr>queueFlags = 3, surfaceSupportRes = VK_SUCCESS, surfaceSupported = False\<rparr>, \<lparr>queueFlags = 4, surfaceSupportRes = VK_SUCCESS, surfaceSupported = True\<rparr>]\<rparr>"
  let ?inst = "\<lparr>enumCountRes = VK_SUCCESS, enumListRes = VK_SUCCESS,
      enumDevices =
       [\<lparr>apiVersion = 0x401000, deviceType = VK_PHYSICAL_DEVICE_TYPE_DISCRETE_GPU,
       deviceExtensions = [''VK_KHR_maintenance1'', ''VK_KHR_swapchain''],
       queueFamilies = [\<lparr>queueFlags = 7, surfaceSupportRes = VK_SUCCESS, surfaceSupported = True\<rparr>]\<rparr>,
        \<lparr>apiVersion = 0x403000, deviceType = VK_PHYSICAL_DEVICE_TYPE_INTEGRATED_GPU,
       deviceExtensions = [''VK_KHR_maintenance1'', ''VK_KHR_swapchain''],
       queueFamilies = [\<lparr>queueFlags = 7, surfaceSupportRes = VK_SUCCESS, surfaceSupported = True\<rparr>]\<rparr>,
        \<lparr>apiVersion = 0x402000, deviceType = VK_PHYSICAL_DEVICE_TYPE_DISCRETE_GPU,
       deviceExtensions = [''VK_KHR_maintenance1'', ''VK_KHR_swapchain''],
       queueFamilies = [\<lparr>queueFlags = 3, surfaceSupportRes = VK_SUCCESS, surfaceSupported = False\<rparr>, \<lparr>queueFlags = 4, surfaceSupportRes = VK_SUCCESS, surfaceSupported = True\<rparr>]\<rparr>,
        \<lparr>apiVersion = 0x403000, deviceType = VK_PHYSICAL_DEVICE_TYPE_DISCRETE_GPU,
       deviceExtensions = [''VK_KHR_maintenance1'', ''VK_KHR_swapchain''],
       queueFamilies = [\<lparr>queueFlags = 7, surfaceSupportRes = VK_SUCCESS, surfaceSupported = True\<rparr>]\<rparr>]\<rparr>"
  have s: "(1 :: handle) \<noteq> VK_NULL_HANDLE"
    by (simp add: VK_NULL_HANDLE_def)
  have e1: "enumCountRes ?inst = VK_SUCCESS" and e2: "enumListRes ?inst = VK_SUCCESS"
    by simp_all
  note t = device_selection [OF s e1 e2]
  have r: "rejected ?old"
    by (simp add: rejected_def api_version_below_minimum_def VK_API_VERSION_MAJOR_def
        VK_API_VERSION_MINOR_def drop_bit_eq_div word_less_nat_alt)
  have sc: "score_device ?old 1 = - 1"
    by (rule t [THEN conjunct1, rule_format, OF r])
  have sel: "select_device ?inst 1 = Inr (Some ?g1)"
    by code_simp
  have nr: "\<not> rejected ?g1"
    by (rule t [THEN conjunct2, THEN conjunct1, rule_format, OF sel, THEN conjunct2])
  from s r sc sel nr show ?thesis by (intro conjI)
qed

section \<open>Recreating the swapchain\<close>

lemma create_swapchain_cases:
  assumes "create_swapchain env q old = (r, calls)"
  shows "(r = Inl AssertFailed \<and> calls = []) \<or>
    (\<exists>msg. r = Inl (Thrown msg) \<and>
       (calls = [] \<or> (\<exists>ci res h. calls = [CreateSwapchainKHR ci res h] \<and> res \<noteq> VK_SUCCESS))) \<or>
    (\<exists>chain fmt ext ci. r = Inr (chain, fmt, ext) \<and>
       calls = [CreateSwapchainKHR ci VK_SUCCESS chain] \<and>
       vkCreateSwapchainKHR env ci = (VK_SUCCESS, chain) \<and> chainOldSwapchain ci = old)"
  using assms
  by (auto simp: create_swapchain_def swapchain_create_info_def Let_def
      split: list.splits if_splits prod.splits)

lemma create_views_calls:
  "create_swapchain_image_views env fmt imgs vs = (r, views, calls) \<Longrightarrow>
   \<forall>c\<in>set calls. \<exists>img res v. c = CreateImageView img res v"
  by (induction imgs arbitrary: vs r views calls)
     (auto split: prod.splits if_splits)





lemma recreate_queue_family_indices_cleared [simp]:
  "recreate_queue_family_indices (w\<lparr>swapViews := vs, swapImages := is\<rparr>) =
   recreate_queue_family_indices w"
  by (simp add: recreate_queue_family_indices_def)

lemma recreate_swapchain_thrown:
  assumes "create_swapchain env (recreate_queue_family_indices w) (swapchain w) =
      (Inl (Thrown msg), cs)"
  shows "recreate_swapchain env w =
      (Inl (Thrown msg), w\<lparr>swapViews := [], swapImages := []\<rparr>,
       map DestroyImageView (swapViews w) @ cs)"
  using assms by (simp add: recreate_swapchain_def Let_def)

lemma recreate_swapchain_aborted:
  assumes "create_swapchain env (recreate_queue_family_indices w) (swapchain w) =
      (Inl AssertFailed, cs)"
  shows "recreate_swapchain env w =
      (Inl AssertFailed, w\<lparr>swapViews := [], swapImages := []\<rparr>,
       map DestroyImageView (swapViews w) @ cs)"
  using assms by (simp add: recreate_swapchain_def Let_def)

lemma recreate_swapchain_created:
  assumes c: "create_swapchain env (recreate_queue_family_indices w) (swapchain w) =
      (Inr (chain, fmt, ext), cs)"
    and v: "create_swapchain_image_views env fmt (get_swapchain_images env chain) [] =
      (e, views, vcalls)"
  shows "recreate_swapchain env w =
      (case e of
         Some x \<Rightarrow> Inl x
       | None \<Rightarrow>
           Inr \<lparr>changedSize = (width (swapchainExtent w) \<noteq> width ext \<or>
                                height (swapchainExtent w) \<noteq> height ext),
                changedFormat = (swapchainFormat w \<noteq> fmt)\<rparr>,
       w\<lparr>swapViews := views, swapImages := get_swapchain_images env chain,
         swapchain := chain, swapchainFormat := fmt, swapchainExtent := ext\<rparr>,
       map DestroyImageView (swapViews w) @ cs @ [DestroySwapchainKHR (swapchain w)] @ vcalls)"
  using c v by (cases e) (simp_all add: recreate_swapchain_def Let_def)


text \<open>
  C7. In every run of \<open>recreate_swapchain\<close>, a chain is destroyed only if it
  is the old chain and only directly after a \<open>vkCreateSwapchainKHR\<close> that
  succeeded with the old chain passed as \<open>oldSwapchain\<close>; before that call
  come only the destructions of the old image views, after the destruction
  only view creations. If \<open>create_swapchain\<close> throws, the same error leaves
  \<open>recreate_swapchain\<close>, the window holds the old chain handle, format and
  extent (its image and view lists are empty), and the driver calls made are
  the destructions of the old views followed by at most a failed creation:
  no chain and no image is destroyed.
\<close>

theorem recreate_swapchain_old_chain:
  assumes "recreate_swapchain env aWindow = (r, w', calls)"
  shows "(\<forall>h. DestroySwapchainKHR h \<in> set calls \<longrightarrow>
       h = swapchain aWindow \<and>
       (\<exists>ci new rest.
          calls = map DestroyImageView (swapViews aWindow)
                  @ [CreateSwapchainKHR ci VK_SUCCESS new, DestroySwapchainKHR (swapchain aWindow)]
                  @ rest \<and>
          vkCreateSwapchainKHR env ci = (VK_SUCCESS, new) \<and>
          chainOldSwapchain ci = swapchain aWindow \<and>
          (\<forall>c\<in>set rest. \<exists>img res v. c = CreateImageView img res v))) \<and>
    (\<forall>msg cs.
       create_swapchain env (recreate_queue_family_indices aWindow) (swapchain aWindow) =
         (Inl (Thrown msg), cs) \<longrightarrow>
       r = Inl (Thrown msg) \<and>
       w' = aWindow\<lparr>swapViews := [], swapImages := []\<rparr> \<and>
       swapchain w' = swapchain aWindow \<and>
       calls = map DestroyImageView (swapViews aWindow) @ cs \<and>
       (cs = [] \<or> (\<exists>ci res h. cs = [CreateSwapchainKHR ci res h] \<and> res \<noteq> VK_SUCCESS)) \<and>
       (\<forall>h. DestroySwapchainKHR h \<notin> set calls))"
proof -
  obtain cr cs where c:
    "create_swapchain env (recreate_queue_family_indices aWindow) (swapchain aWindow) = (cr, cs)"
    by (cases "create_swapchain env (recreate_queue_family_indices aWindow) (swapchain aWindow)")
  note cases = create_swapchain_cases [OF c]
  have thrown: "r = Inl (Thrown msg) \<and>
       w' = aWindow\<lparr>swapViews := [], swapImages := []\<rparr> \<and>
       swapchain w' = swapchain aWindow \<and>
       calls = map DestroyImageView (swapViews aWindow) @ cs \<and>
       (cs = [] \<or> (\<exists>ci res h. cs = [CreateSwapchainKHR ci res h] \<and> res \<noteq> VK_SUCCESS)) \<and>
       (\<forall>h. DestroySwapchainKHR h \<notin> set calls)"
    if cr: "cr = Inl (Thrown msg)" for msg
  proof -
    from recreate_swapchain_thrown [OF c [unfolded cr]] assms
    have r: "r = Inl (Thrown msg)" and w: "w' = aWindow\<lparr>swapViews := [], swapImages := []\<rparr>"
      and cl: "calls = map DestroyImageView (swapViews aWindow) @ cs"
      by simp_all
    from cases cr
    have cs: "cs = [] \<or> (\<exists>ci res h. cs = [CreateSwapchainKHR ci res h] \<and> res \<noteq> VK_SUCCESS)"
      by auto
    then have "\<forall>h. DestroySwapchainKHR h \<notin> set calls"
      using cl by auto
    with r w cl cs show ?thesis by simp
  qed
  have destroyed: "h = swapchain aWindow \<and>
       (\<exists>ci new rest.
          calls = map DestroyImageView (swapViews aWindow)
                  @ [CreateSwapchainKHR ci VK_SUCCESS new, DestroySwapchainKHR (swapchain aWindow)]
                  @ rest \<and>
          vkCreateSwapchainKHR env ci = (VK_SUCCESS, new) \<and>
          chainOldSwapchain ci = swapchain aWindow \<and>
          (\<forall>c\<in>set rest. \<exists>img res v. c = CreateImageView img res v))"
    if h: "DestroySwapchainKHR h \<in> set calls" for h
  proof -
    from cases consider
        (c_abort) "cr = Inl AssertFailed" "cs = []"
      | (c_thrown) msg where "cr = Inl (Thrown msg)"
      | (c_created) chain fmt ext ci where "cr = Inr (chain, fmt, ext)"
          "cs = [CreateSwapchainKHR ci VK_SUCCESS chain]"
          "vkCreateSwapchainKHR env ci = (VK_SUCCESS, chain)"
          "chainOldSwapchain ci = swapchain aWindow"
      by blast
    then show ?thesis
    proof cases
      case c_abort
      from recreate_swapchain_aborted [OF c [unfolded c_abort(1)]] assms c_abort(2)
      have "calls = map DestroyImageView (swapViews aWindow)" by simp
      with h show ?thesis by auto
    next
      case c_thrown
      from thrown [OF c_thrown] h show ?thesis by blast
    next
      case c_created
      obtain e views vcalls where v:
        "create_swapchain_image_views env fmt (get_swapchain_images env chain) [] =
           (e, views, vcalls)"
        by (cases "create_swapchain_image_views env fmt (get_swapchain_images env chain) []")
      from recreate_swapchain_created [OF c [unfolded c_created(1)] v] assms c_created(2)
      have cl: "calls = map DestroyImageView (swapViews aWindow)
          @ [CreateSwapchainKHR ci VK_SUCCESS chain, DestroySwapchainKHR (swapchain aWindow)]
          @ vcalls"
        by simp
      note vc = create_views_calls [OF v]
      from h cl vc have "h = swapchain aWindow" by auto
      with cl vc c_created(3,4) show ?thesis by blast
    qed
  qed
  show ?thesis
  proof (rule conjI)
    show "\<forall>h. DestroySwapchainKHR h \<in> set calls \<longrightarrow>
       h = swapchain aWindow \<and>
       (\<exists>ci new rest.
          calls = map DestroyImageView (swapViews aWindow)
                  @ [CreateSwapchainKHR ci VK_SUCCESS new, DestroySwapchainKHR (swapchain aWindow)]
                  @ rest \<and>
          vkCreateSwapchainKHR env ci = (VK_SUCCESS, new) \<and>
          chainOldSwapchain ci = swapchain aWindow \<and>
          (\<forall>c\<in>set rest. \<exists>img res v. c = CreateImageView img res v))"
      by (intro allI impI) (rule destroyed)
    show "\<forall>msg cs'.
       create_swapchain env (recreate_queue_family_indices aWindow) (swapchain aWindow) =
         (Inl (Thrown msg), cs') \<longrightarrow>
       r = Inl (Thrown msg) \<and>
       w' = aWindow\<lparr>swapViews := [], swapImages := []\<rparr> \<and>
       swapchain w' = swapchain aWindow \<and>
       calls = map DestroyImageView (swapViews aWindow) @ cs' \<and>
       (cs' = [] \<or> (\<exists>ci res h. cs' = [CreateSwapchainKHR ci res h] \<and> res \<noteq> VK_SUCCESS)) \<and>
       (\<forall>h. DestroySwapchainKHR h \<notin> set calls)"
    proof (intro allI impI)
      fix msg cs'
      assume "create_swapchain env (recreate_queue_family_indices aWindow) (swapchain aWindow) =
         (Inl (Thrown msg), cs')"
      with c have cr: "cr = Inl (Thrown msg)" and eq: "cs' = cs" by simp_all
      show "r = Inl (Thrown msg) \<and>
         w' = aWindow\<lparr>swapViews := [], swapImages := []\<rparr> \<and>
         swapchain w' = swapchain aWindow \<and>
         calls = map DestroyImageView (swapViews aWindow) @ cs' \<and>
         (cs' = [] \<or> (\<exists>ci res h. cs' = [CreateSwapchainKHR ci res h] \<and> res \<noteq> VK_SUCCESS)) \<and>
         (\<forall>h. DestroySwapchainKHR h \<notin> set calls)"
        unfolding eq by (rule thrown [OF cr])
    qed
  qed
qed


theorem recreate_swapchain_old_chain_witness:
  "fst (recreate_swapchain (sample_env (VK_RESULT_OTHER (- 3))) sample_window) =
     Inl (Thrown ''Unable to create swap chain'') \<and>
   swapchain (fst (snd (recreate_swapchain (sample_env (VK_RESULT_OTHER (- 3))) sample_window))) =
     swapchain sample_window \<and>
   (\<forall>h. DestroySwapchainKHR h \<notin>
      set (snd (snd (recreate_swapchain (sample_env (VK_RESULT_OTHER (- 3))) sample_window)))) \<and>
   DestroySwapchainKHR 41 \<in>
      set (snd (snd (recreate_swapchain (sample_env VK_SUCCESS) sample_window))) \<and>
   (\<exists>ci new rest.
      snd (snd (recreate_swapchain (sample_env VK_SUCCESS) sample_window)) =
        map DestroyImageView (swapViews sample_window)
        @ [CreateSwapchainKHR ci VK_SUCCESS new, DestroySwapchainKHR (swapchain sample_window)]
        @ rest \<and>
      chainOldSwapchain ci = swapchain sample_window)"
proof -
  let ?bad = "sample_env (VK_RESULT_OTHER (- 3))"
  let ?f = "recreate_swapchain ?bad sample_window"
  let ?g = "recreate_swapchain (sample_env VK_SUCCESS) sample_window"
  let ?c = "create_swapchain ?bad (recreate_queue_family_indices sample_window)
      (swapchain sample_window)"
  have pf: "?f = (fst ?f, fst (snd ?f), snd (snd ?f))" and pg: "?g = (fst ?g, fst (snd ?g), snd (snd ?g))"
    by simp_all
  have "fst ?c = Inl (Thrown ''Unable to create swap chain'')"
    by code_simp
  then have cf: "?c = (Inl (Thrown ''Unable to create swap chain''), snd ?c)"
    by (metis prod.collapse)
  note tf = recreate_swapchain_old_chain [OF pf, THEN conjunct2, rule_format, OF cf]
  have mem: "DestroySwapchainKHR 41 \<in> set (snd (snd ?g))"
    by code_simp
  note tg = recreate_swapchain_old_chain [OF pg, THEN conjunct1, rule_format, OF mem]
  from tf have f1: "fst ?f = Inl (Thrown ''Unable to create swap chain'')"
    and f2: "swapchain (fst (snd ?f)) = swapchain sample_window"
    and f3: "\<forall>h. DestroySwapchainKHR h \<notin> set (snd (snd ?f))"
    by blast+
  from tg have g: "\<exists>ci new rest.
      snd (snd ?g) =
        map DestroyImageView (swapViews sample_window)
        @ [CreateSwapchainKHR ci VK_SUCCESS new, DestroySwapchainKHR (swapchain sample_window)]
        @ rest \<and>
      chainOldSwapchain ci = swapchain sample_window"
    by blast
  from f1 f2 f3 mem g show ?thesis by (intro conjI)
qed




end
